theory Spec2Isabelle
  imports Main "HOL-Library.Word"
begin

section \<open>ice9d: constants and data\<close>

text \<open>
  The server \<^verbatim>\<open>ice9d.c\<close> keeps a fixed table of connections. Every function of the
  source takes an index into that table and starts with
  \<^verbatim>\<open>struct Connection *connection = &(connections[connection_idx])\<close>; the functions
  below take that connection as a value and return it updated. Calls into the operating
  system and into the pipe9x library are not computed: their results are arguments
  (one per call), and the calls that matter are returned as a list of effects.
\<close>

type_synonym byte = "8 word"
type_synonym DWORD = "32 word"

text \<open>A handle that is not \<^verbatim>\<open>NULL\<close>; \<^verbatim>\<open>NULL\<close> is \<open>None\<close> in an optional field.\<close>

type_synonym HANDLE = nat

definition MAX_CONNECTIONS :: nat where
  "MAX_CONNECTIONS = 16"

definition PIPE_READ_SIZE :: nat where
  "PIPE_READ_SIZE = 32768"

definition RECVBUF_SIZE :: nat where
  "RECVBUF_SIZE = 72 * 1024"

definition SENDBUF_SIZE :: nat where
  "SENDBUF_SIZE = 128 * 1024"

text \<open>\<^verbatim>\<open>sizeof(struct MessageHeader)\<close>: the struct is packed, one byte and a uint16.\<close>

definition sizeof_MessageHeader :: nat where
  "sizeof_MessageHeader = 3"

text \<open>\<^verbatim>\<open>sizeof(int32_t)\<close>.\<close>

definition sizeof_int32 :: nat where
  "sizeof_int32 = 4"

text \<open>Message commands, the ASCII codes of the letters.\<close>

abbreviation CMD_A :: byte where "CMD_A \<equiv> 65"
abbreviation CMD_C :: byte where "CMD_C \<equiv> 67"
abbreviation CMD_E :: byte where "CMD_E \<equiv> 69"
abbreviation CMD_I :: byte where "CMD_I \<equiv> 73"
abbreviation CMD_O :: byte where "CMD_O \<equiv> 79"
abbreviation CMD_W :: byte where "CMD_W \<equiv> 87"
abbreviation CMD_X :: byte where "CMD_X \<equiv> 88"

text \<open>The Windows error codes the source compares with.\<close>

definition ERROR_SUCCESS :: DWORD where
  "ERROR_SUCCESS = 0"

definition ERROR_BROKEN_PIPE :: DWORD where
  "ERROR_BROKEN_PIPE = 109"

definition ERROR_IO_PENDING :: DWORD where
  "ERROR_IO_PENDING = 997"

text \<open>\<^verbatim>\<open>INVALID_SOCKET\<close> stored in the \<^verbatim>\<open>int sock\<close> field: all bits set.\<close>

definition INVALID_SOCKET :: "32 word" where
  "INVALID_SOCKET = - 1"

datatype ConnectionState = CS_SETUP | CS_RUNNING | CS_CLOSING

text \<open>
  Modelled from the spec: the handles of the pipe9x library, whose code is not part of
  the source. Section 6.4 of the specification gives each end an event that is signalled
  when the operation in flight completes, and a \<open>pending\<close> query that tells whether an
  operation is in flight: a write is in flight from its initiation until its result has
  been consumed.
\<close>

record PipeReadHandle =
  read_event :: HANDLE

record PipeWriteHandle =
  write_event :: HANDLE
  write_pending :: bool

definition pipe9x_read_event :: "PipeReadHandle \<Rightarrow> HANDLE" where
  "pipe9x_read_event prh = read_event prh"

definition pipe9x_write_event :: "PipeWriteHandle \<Rightarrow> HANDLE" where
  "pipe9x_write_event pwh = write_event pwh"

definition pipe9x_write_pending :: "PipeWriteHandle \<Rightarrow> bool" where
  "pipe9x_write_pending pwh = write_pending pwh"

text \<open>
  \<^verbatim>\<open>struct Connection\<close>. The field \<^verbatim>\<open>id\<close> is \<open>conn_id\<close> here. The two buffers are
  the whole arrays, of \<open>RECVBUF_SIZE\<close> and \<open>SENDBUF_SIZE\<close> bytes; \<open>recvbuf_used\<close> and
  \<open>sendbuf_used\<close> are \<^verbatim>\<open>int\<close> in the source, which keeps them between 0 and the size
  of the array, and natural numbers here. The three strings are the bytes stored by
  \<open>store_string\<close>, without the terminating zero.
\<close>

record Connection =
  conn_id :: "32 word"
  state :: ConnectionState
  sock :: "32 word"
  recvbuf :: "byte list"
  recvbuf_used :: nat
  sendbuf :: "byte list"
  sendbuf_used :: nat
  application_path :: "byte list option"
  command_line :: "byte list option"
  working_directory :: "byte list option"
  process :: "HANDLE option"
  stdin_pipe :: "PipeWriteHandle option"
  stdout_pipe :: "PipeReadHandle option"
  stderr_pipe :: "PipeReadHandle option"

text \<open>The bytes received and not yet consumed, and the bytes queued and not yet sent.\<close>

definition recv_pending :: "Connection \<Rightarrow> byte list" where
  "recv_pending c = take (recvbuf_used c) (recvbuf c)"

definition send_pending :: "Connection \<Rightarrow> byte list" where
  "send_pending c = take (sendbuf_used c) (sendbuf c)"

text \<open>
  The calls and events that the properties below speak about. \<open>Queued cmd payload\<close>
  marks that \<open>connection_write\<close> has put a message into the send buffer.
\<close>

datatype effect =
    Closesocket "32 word"
  | TerminateProcess HANDLE
  | CloseHandle "HANDLE option"
  | Pipe9xReadClose "PipeReadHandle option"
  | Pipe9xWriteClose "PipeWriteHandle option"
  | Pipe9xReadInitiate "PipeReadHandle option"
  | Pipe9xWriteInitiate PipeWriteHandle "byte list"
  | CreateProcess "byte list" "byte list option" "byte list option"
  | Queued byte "byte list"

text \<open>
  The ways a call stops the whole server: \<^verbatim>\<open>abort()\<close>, a failed \<^verbatim>\<open>assert\<close>, and
  a null pointer handed to a C string function.
\<close>

datatype fault = Abort | AssertionFailed | NullPointer

text \<open>
  What a function leaves behind: \<open>Open c es\<close> when it returns with the connection still
  in the table (\<^verbatim>\<open>return true\<close> where it returns a \<^verbatim>\<open>bool\<close>), \<open>Closed c es\<close> when
  it has called \<open>connection_close\<close> on the connection, which was \<open>c\<close> at that moment
  (\<^verbatim>\<open>return false\<close>), \<open>Crashed f es\<close> when the server stopped inside the call.
  In each case \<open>es\<close> are the effects of the call, in order.
\<close>

datatype outcome =
    Open Connection "effect list"
  | Closed Connection "effect list"
  | Crashed fault "effect list"

fun after :: "effect list \<Rightarrow> outcome \<Rightarrow> outcome" where
  "after es (Open c es') = Open c (es @ es')"
| "after es (Closed c es') = Closed c (es @ es')"
| "after es (Crashed f es') = Crashed f (es @ es')"

fun effects_of :: "outcome \<Rightarrow> effect list" where
  "effects_of (Open c es) = es"
| "effects_of (Closed c es) = es"
| "effects_of (Crashed f es) = es"

section \<open>Memory\<close>

text \<open>
  \<^verbatim>\<open>memmove(buf + dst, buf + src, n)\<close> and \<^verbatim>\<open>memcpy(buf + dst, bytes, length bytes)\<close>
  on an array.
\<close>

definition memmove :: "byte list \<Rightarrow> nat \<Rightarrow> nat \<Rightarrow> nat \<Rightarrow> byte list" where
  "memmove buf dst src n = take dst buf @ take n (drop src buf) @ drop (dst + n) buf"

definition memcpy :: "byte list \<Rightarrow> nat \<Rightarrow> byte list \<Rightarrow> byte list" where
  "memcpy buf dst bytes = take dst buf @ bytes @ drop (dst + length bytes) buf"

section \<open>Messages\<close>

text \<open>
  \<^verbatim>\<open>struct MessageHeader\<close> at the start of an array: the command is byte 0, the
  \<^verbatim>\<open>uint16_t payload_length\<close> is bytes 1 and 2, read and written by a little-endian
  machine.
\<close>

definition header_command :: "byte list \<Rightarrow> byte" where
  "header_command buf = buf ! 0"

definition header_payload_length :: "byte list \<Rightarrow> nat" where
  "header_payload_length buf = unat (buf ! 1) + 256 * unat (buf ! 2)"

text \<open>
  The header as \<open>connection_write\<close> stores it: the \<^verbatim>\<open>int payload_length\<close> is
  converted to \<^verbatim>\<open>uint16_t\<close>, low byte first.
\<close>

definition MessageHeader_bytes :: "byte \<Rightarrow> nat \<Rightarrow> byte list" where
  "MessageHeader_bytes cmd payload_length =
     [cmd, of_nat (payload_length mod 65536 mod 256), of_nat (payload_length mod 65536 div 256)]"

text \<open>
  The test of the loop in \<open>connection_read\<close> (lines 181 to 189): with \<open>used\<close> bytes in
  the array, is a complete message at its head? If so, its command, its payload and the
  \<open>total_length\<close> of line 398.
\<close>

definition next_message :: "byte list \<Rightarrow> nat \<Rightarrow> (byte \<times> byte list \<times> nat) option" where
  "next_message buf used =
     (if sizeof_MessageHeader \<le> used then
        (let payload_length = header_payload_length buf in
         if sizeof_MessageHeader + payload_length \<le> used
         then Some (header_command buf,
                    take payload_length (drop sizeof_MessageHeader buf),
                    sizeof_MessageHeader + payload_length)
         else None)
      else None)"

text \<open>Lines 400 and 401: the message is moved out of the receive buffer.\<close>

definition drain_recvbuf :: "nat \<Rightarrow> Connection \<Rightarrow> Connection" where
  "drain_recvbuf total_length c =
     c\<lparr>recvbuf := memmove (recvbuf c) 0 total_length (recvbuf_used c - total_length),
       recvbuf_used := recvbuf_used c - total_length\<rparr>"

section \<open>Sending\<close>

text \<open>The result of \<^verbatim>\<open>send\<close>: the number of bytes taken, or an error.\<close>

datatype send_result = Sent nat | SendWouldBlock | SendError

definition connection_flush :: "Connection \<Rightarrow> send_result \<Rightarrow> outcome" where
  "connection_flush c write_result =
     (let r = (if 0 < sendbuf_used c then
                 (case write_result of
                    Sent n \<Rightarrow>
                      Some (c\<lparr>sendbuf := memmove (sendbuf c) 0 n (sendbuf_used c - n),
                              sendbuf_used := sendbuf_used c - n\<rparr>)
                  | SendWouldBlock \<Rightarrow> Some c
                  | SendError \<Rightarrow> None)
               else Some c)
      in case r of
           None \<Rightarrow> Closed c []
         | Some c1 \<Rightarrow>
             if sendbuf_used c1 = 0 \<and> state c1 = CS_CLOSING then Closed c1 [] else Open c1 [])"

definition connection_write ::
  "Connection \<Rightarrow> byte \<Rightarrow> byte list \<Rightarrow> send_result \<Rightarrow> outcome" where
  "connection_write c cmd payload write_result =
     (if 65535 < length payload then Crashed AssertionFailed []
      else if SENDBUF_SIZE - sendbuf_used c < sizeof_MessageHeader + length payload
      then Closed c []
      else after [Queued cmd payload]
             (connection_flush
                (c\<lparr>sendbuf := memcpy (sendbuf c) (sendbuf_used c)
                                (MessageHeader_bytes cmd (length payload) @ payload),
                   sendbuf_used := sendbuf_used c + sizeof_MessageHeader + length payload\<rparr>)
                write_result))"

section \<open>Receiving\<close>

text \<open>
  The result of \<^verbatim>\<open>recv\<close>: the bytes read (none at the end of the stream), or the
  error \<^verbatim>\<open>WSAEWOULDBLOCK\<close>, or another error.
\<close>

datatype recv_result = Received "byte list" | RecvWouldBlock | RecvError

text \<open>
  What the system and the pipe9x library answer while one message is handled:
  whether \<^verbatim>\<open>malloc\<close> succeeds, the error code of each \<^verbatim>\<open>pipe9x_create\<close> with the
  events of the read end and of the write end it made, whether \<^verbatim>\<open>GetFileAttributes\<close>
  finds the application path, what \<open>path_search\<close> returns, the process and thread
  handles of a successful \<^verbatim>\<open>CreateProcess\<close>, and the error codes of the two
  \<^verbatim>\<open>pipe9x_read_initiate\<close> and of \<^verbatim>\<open>pipe9x_write_initiate\<close>.
\<close>

record msg_env =
  malloc_ok :: bool
  create_stdin :: "DWORD \<times> HANDLE \<times> HANDLE"
  create_stdout :: "DWORD \<times> HANDLE \<times> HANDLE"
  create_stderr :: "DWORD \<times> HANDLE \<times> HANDLE"
  file_found :: bool
  path_search_result :: "byte list option"
  create_process :: "(HANDLE \<times> HANDLE) option"
  read_initiate_stdout :: DWORD
  read_initiate_stderr :: DWORD
  write_initiate :: DWORD

text \<open>
  \<open>store_string\<close>: the old string is freed and the new one allocated; when the
  allocation fails the field is left \<^verbatim>\<open>NULL\<close> and the result is \<^verbatim>\<open>false\<close>.
\<close>

definition store_string :: "bool \<Rightarrow> byte list \<Rightarrow> bool \<times> byte list option" where
  "store_string allocated src = (if allocated then (True, Some src) else (False, None))"

text \<open>\<^verbatim>\<open>strchr(s, c) != NULL\<close> on the C string held in the bytes \<open>s\<close>.\<close>

definition strchr_found :: "byte list \<Rightarrow> byte \<Rightarrow> bool" where
  "strchr_found s ch = (ch \<in> set (takeWhile (\<lambda>b. b \<noteq> 0) s))"

text \<open>
  What the \<^verbatim>\<open>switch\<close> of \<open>connection_read\<close> does with one complete message:
  \<open>Consumed\<close> when it reaches the \<^verbatim>\<open>break\<close>, \<open>Stall\<close> when it returns \<^verbatim>\<open>true\<close> with
  the message left in the buffer, \<open>Close\<close> when it closes the connection, \<open>Crash\<close> when
  the server stops.
\<close>

datatype dispatch =
    Consumed Connection "effect list"
  | Stall
  | Close Connection "effect list"
  | Crash fault "effect list"

definition handle_A :: "msg_env \<Rightarrow> byte list \<Rightarrow> Connection \<Rightarrow> dispatch" where
  "handle_A env payload c =
     (case store_string (malloc_ok env) payload of
        (ok, s) \<Rightarrow> if ok then Consumed (c\<lparr>application_path := s\<rparr>) []
                   else Close (c\<lparr>application_path := s\<rparr>) [])"

definition handle_C :: "msg_env \<Rightarrow> byte list \<Rightarrow> Connection \<Rightarrow> dispatch" where
  "handle_C env payload c =
     (case store_string (malloc_ok env) payload of
        (ok, s) \<Rightarrow> if ok then Consumed (c\<lparr>command_line := s\<rparr>) []
                   else Close (c\<lparr>command_line := s\<rparr>) [])"

definition handle_W :: "msg_env \<Rightarrow> byte list \<Rightarrow> Connection \<Rightarrow> dispatch" where
  "handle_W env payload c =
     (case store_string (malloc_ok env) payload of
        (ok, s) \<Rightarrow> if ok then Consumed (c\<lparr>working_directory := s\<rparr>) []
                   else Close (c\<lparr>working_directory := s\<rparr>) [])"

text \<open>
  The second half of the case \<^verbatim>\<open>'E'\<close> (lines 268 to 356), entered with the six pipe
  ends. \<^verbatim>\<open>strchr\<close> is given \<open>application_path\<close> as it is.
\<close>

definition spawn_child ::
  "msg_env \<Rightarrow> PipeReadHandle \<Rightarrow> PipeWriteHandle \<Rightarrow> PipeReadHandle \<Rightarrow> PipeWriteHandle \<Rightarrow>
   PipeReadHandle \<Rightarrow> PipeWriteHandle \<Rightarrow> Connection \<Rightarrow> dispatch" where
  "spawn_child env stdin_read stdin_write stdout_read stdout_write stderr_read stderr_write c =
     (case application_path c of
        None \<Rightarrow> Crash NullPointer []
      | Some path \<Rightarrow>
          (let program =
                 (if \<not> strchr_found path 92 \<and> \<not> file_found env
                  then (case path_search_result env of Some buf \<Rightarrow> buf | None \<Rightarrow> path)
                  else path);
               call = CreateProcess program (command_line c) (working_directory c)
           in case create_process env of
                Some (hProcess, hThread) \<Rightarrow>
                  (let es = [call,
                             Pipe9xReadClose (Some stdin_read),
                             Pipe9xWriteClose (Some stdout_write),
                             Pipe9xWriteClose (Some stderr_write),
                             CloseHandle (Some hThread)];
                       c1 = c\<lparr>process := Some hProcess,
                              stdin_pipe := Some stdin_write,
                              stdout_pipe := Some stdout_read,
                              stderr_pipe := Some stderr_read\<rparr>
                   in if read_initiate_stdout env \<noteq> ERROR_IO_PENDING
                      then Crash Abort (es @ [Pipe9xReadInitiate (Some stdout_read)])
                      else if read_initiate_stderr env \<noteq> ERROR_IO_PENDING
                      then Crash Abort (es @ [Pipe9xReadInitiate (Some stdout_read),
                                              Pipe9xReadInitiate (Some stderr_read)])
                      else Consumed c1
                             (es @ [Pipe9xReadInitiate (Some stdout_read),
                                    Pipe9xReadInitiate (Some stderr_read)]))
              | None \<Rightarrow> Close c [call]))"

text \<open>
  The case \<^verbatim>\<open>'E'\<close>: the three pipes are created one after the other (lines 229 to
  266); a new write end has no write in flight.
\<close>

definition handle_E :: "msg_env \<Rightarrow> Connection \<Rightarrow> dispatch" where
  "handle_E env c =
     (case create_stdin env of (error_stdin, stdin_r, stdin_w) \<Rightarrow>
      case create_stdout env of (error_stdout, stdout_r, stdout_w) \<Rightarrow>
      case create_stderr env of (error_stderr, stderr_r, stderr_w) \<Rightarrow>
      (let stdin_read = \<lparr>read_event = stdin_r\<rparr>;
           stdin_write = \<lparr>write_event = stdin_w, write_pending = False\<rparr>;
           stdout_read = \<lparr>read_event = stdout_r\<rparr>;
           stdout_write = \<lparr>write_event = stdout_w, write_pending = False\<rparr>;
           stderr_read = \<lparr>read_event = stderr_r\<rparr>;
           stderr_write = \<lparr>write_event = stderr_w, write_pending = False\<rparr>
       in if error_stdin \<noteq> ERROR_SUCCESS then Close c []
          else if error_stdout \<noteq> ERROR_SUCCESS
          then Close c [Pipe9xWriteClose (Some stdin_write),
                        Pipe9xReadClose (Some stdin_read)]
          else if error_stderr \<noteq> ERROR_SUCCESS
          then Close c [Pipe9xWriteClose (Some stdout_write),
                        Pipe9xReadClose (Some stdout_read),
                        Pipe9xWriteClose (Some stdin_write),
                        Pipe9xReadClose (Some stdin_read)]
          else spawn_child env stdin_read stdin_write stdout_read stdout_write
                 stderr_read stderr_write c))"

text \<open>The case \<^verbatim>\<open>'I'\<close> (lines 359 to 387).\<close>

definition handle_I :: "msg_env \<Rightarrow> byte list \<Rightarrow> Connection \<Rightarrow> dispatch" where
  "handle_I env payload c =
     (if length payload = 0
      then Consumed (c\<lparr>stdin_pipe := None\<rparr>) [Pipe9xWriteClose (stdin_pipe c)]
      else (case stdin_pipe c of
              None \<Rightarrow> Consumed c []
            | Some pwh \<Rightarrow>
                if pipe9x_write_pending pwh then Stall
                else if write_initiate env \<noteq> ERROR_IO_PENDING
                then Close c [Pipe9xWriteInitiate pwh payload]
                else Consumed (c\<lparr>stdin_pipe := Some (pwh\<lparr>write_pending := True\<rparr>)\<rparr>)
                       [Pipe9xWriteInitiate pwh payload]))"

definition handle_message :: "msg_env \<Rightarrow> byte \<Rightarrow> byte list \<Rightarrow> Connection \<Rightarrow> dispatch" where
  "handle_message env cmd payload c =
     (if cmd = CMD_A then handle_A env payload c
      else if cmd = CMD_C then handle_C env payload c
      else if cmd = CMD_W then handle_W env payload c
      else if cmd = CMD_E then handle_E env c
      else if cmd = CMD_I then handle_I env payload c
      else Close c [])"

text \<open>
  The loop of \<open>connection_read\<close> (lines 181 to 406). \<open>envs n\<close> holds the answers for
  the \<open>n\<close>-th message handled by this call; \<open>es\<close> are the effects so far.
\<close>

function process_messages ::
  "(nat \<Rightarrow> msg_env) \<Rightarrow> nat \<Rightarrow> Connection \<Rightarrow> effect list \<Rightarrow> outcome" where
  "process_messages envs n c es =
     (case next_message (recvbuf c) (recvbuf_used c) of
        None \<Rightarrow> Open c es
      | Some (cmd, payload, total_length) \<Rightarrow>
          (case handle_message (envs n) cmd payload c of
             Crash f es1 \<Rightarrow> Crashed f (es @ es1)
           | Close c1 es1 \<Rightarrow> Closed c1 (es @ es1)
           | Stall \<Rightarrow> Open c es
           | Consumed c1 es1 \<Rightarrow>
               process_messages envs (Suc n) (drain_recvbuf total_length c1) (es @ es1)))"
  by pat_completeness auto
termination
proof (relation "measure (\<lambda>(envs, n, c, es). recvbuf_used c)")
  show "wf (measure (\<lambda>(envs, n, c, es). recvbuf_used c))"
    by simp
next
  fix envs :: "nat \<Rightarrow> msg_env" and n c es x2 cmd y payload total_length c1 es1
  assume "next_message (recvbuf c) (recvbuf_used c) = Some x2"
    and "(cmd, y) = x2" and "(payload, total_length) = y"
    and "handle_message (envs n) cmd payload c = Consumed c1 es1"
  then have found: "next_message (recvbuf c) (recvbuf_used c) = Some (cmd, payload, total_length)"
    and handled: "handle_message (envs n) cmd payload c = Consumed c1 es1"
    by auto
  from handled have "recvbuf_used c1 = recvbuf_used c"
    by (auto simp: handle_message_def handle_A_def handle_C_def handle_W_def handle_E_def
          handle_I_def spawn_child_def store_string_def Let_def
        split: if_splits prod.splits option.splits)
  moreover from found have "0 < total_length \<and> total_length \<le> recvbuf_used c"
    by (auto simp: next_message_def sizeof_MessageHeader_def Let_def split: if_splits)
  ultimately show "((envs, Suc n, drain_recvbuf total_length c1, es @ es1), (envs, n, c, es))
      \<in> measure (\<lambda>(envs, n, c, es). recvbuf_used c)"
    by (simp add: drain_recvbuf_def)
qed

declare process_messages.simps [simp del]

definition connection_read ::
  "Connection \<Rightarrow> recv_result \<Rightarrow> (nat \<Rightarrow> msg_env) \<Rightarrow> outcome" where
  "connection_read c read_bytes envs =
     (if recvbuf_used c = RECVBUF_SIZE then Open c []
      else (case read_bytes of
              Received data \<Rightarrow>
                if length data = 0 then Closed c []
                else process_messages envs 0
                       (c\<lparr>recvbuf := memcpy (recvbuf c) (recvbuf_used c) data,
                          recvbuf_used := recvbuf_used c + length data\<rparr>) []
            | RecvWouldBlock \<Rightarrow> Open c []
            | RecvError \<Rightarrow> Closed c []))"

section \<open>Child output and child exit\<close>

text \<open>
  What the system and the pipe9x library answer while one woken handle is served: the
  error code and the data of \<^verbatim>\<open>pipe9x_read_result\<close>, the error code of
  \<^verbatim>\<open>pipe9x_read_initiate\<close>, the error code of \<^verbatim>\<open>pipe9x_write_result\<close>, the exit
  code of the child, and the results of the first and the second \<^verbatim>\<open>send\<close>.
\<close>

record wake_env =
  read_result :: "DWORD \<times> byte list"
  read_initiate :: DWORD
  write_result :: DWORD
  exit_code :: DWORD
  send_first :: send_result
  send_second :: send_result

text \<open>
  \<open>pipe_read\<close> is given the address of \<open>stdout_pipe\<close> or of \<open>stderr_pipe\<close> of the
  connection.
\<close>

datatype output_pipe = StdoutPipe | StderrPipe

fun pipe_handle :: "output_pipe \<Rightarrow> Connection \<Rightarrow> PipeReadHandle option" where
  "pipe_handle StdoutPipe c = stdout_pipe c"
| "pipe_handle StderrPipe c = stderr_pipe c"

fun pipe_handle_NULL :: "output_pipe \<Rightarrow> Connection \<Rightarrow> Connection" where
  "pipe_handle_NULL StdoutPipe c = c\<lparr>stdout_pipe := None\<rparr>"
| "pipe_handle_NULL StderrPipe c = c\<lparr>stderr_pipe := None\<rparr>"

text \<open>
  From the label \<^verbatim>\<open>HANDLE_EOF\<close> to the end of \<open>pipe_read\<close>: the pipe is closed and
  forgotten and an empty message is written; \<open>error\<close> is \<^verbatim>\<open>ERROR_BROKEN_PIPE\<close> on
  every way to the label, so no read is started after the write.
\<close>

definition HANDLE_EOF :: "Connection \<Rightarrow> output_pipe \<Rightarrow> byte \<Rightarrow> send_result \<Rightarrow> outcome" where
  "HANDLE_EOF c pipe command sent =
     after [Pipe9xReadClose (pipe_handle pipe c)]
       (connection_write (pipe_handle_NULL pipe c) command [] sent)"

definition pipe_read :: "Connection \<Rightarrow> output_pipe \<Rightarrow> byte \<Rightarrow> wake_env \<Rightarrow> outcome" where
  "pipe_read c pipe command env =
     (case read_result env of (error, data) \<Rightarrow>
        if error = ERROR_SUCCESS then
          (if length data = 0 then
             (if read_initiate env = ERROR_BROKEN_PIPE
              then after [Pipe9xReadInitiate (pipe_handle pipe c)]
                     (HANDLE_EOF c pipe command (send_first env))
              else if read_initiate env \<noteq> ERROR_IO_PENDING
              then Crashed Abort [Pipe9xReadInitiate (pipe_handle pipe c)]
              else Open c [Pipe9xReadInitiate (pipe_handle pipe c)])
           else
             (case connection_write c command data (send_first env) of
                Open c1 es1 \<Rightarrow>
                  if read_initiate env = ERROR_BROKEN_PIPE
                  then after (es1 @ [Pipe9xReadInitiate (pipe_handle pipe c1)])
                         (HANDLE_EOF c1 pipe command (send_second env))
                  else if read_initiate env \<noteq> ERROR_IO_PENDING
                  then Crashed Abort (es1 @ [Pipe9xReadInitiate (pipe_handle pipe c1)])
                  else Open c1 (es1 @ [Pipe9xReadInitiate (pipe_handle pipe c1)])
              | Closed c1 es1 \<Rightarrow> Closed c1 es1
              | Crashed f es1 \<Rightarrow> Crashed f es1))
        else if error = ERROR_BROKEN_PIPE then HANDLE_EOF c pipe command (send_first env)
        else Closed c [])"

text \<open>The four bytes of an \<^verbatim>\<open>int32_t\<close> in memory, lowest first.\<close>

definition int32_bytes :: "32 word \<Rightarrow> byte list" where
  "int32_bytes w =
     [of_nat (unat w mod 256), of_nat (unat w div 256 mod 256),
      of_nat (unat w div 65536 mod 256), of_nat (unat w div 16777216 mod 256)]"

definition process_exit :: "Connection \<Rightarrow> DWORD \<Rightarrow> send_result \<Rightarrow> outcome" where
  "process_exit c code sent =
     after [CloseHandle (process c)]
       (connection_write (c\<lparr>process := None, state := CS_CLOSING\<rparr>) CMD_X (int32_bytes code) sent)"

section \<open>The main loop, for one connection\<close>

text \<open>
  The handles that one pass of the loop of lines 727 to 769 puts into \<open>wait_handles\<close>
  for a connection, in order, each with the statement that put it there.
\<close>

datatype wait_kind = StdoutRead | StderrRead | ProcessExit | StdinWrite

definition wait_handles_of :: "Connection \<Rightarrow> (wait_kind \<times> HANDLE) list" where
  "wait_handles_of c =
     (let sendbuf_available = SENDBUF_SIZE - sendbuf_used c in
      (if sizeof_MessageHeader + PIPE_READ_SIZE \<le> sendbuf_available
       then (case stdout_pipe c of
               Some prh \<Rightarrow> [(StdoutRead, pipe9x_read_event prh)] | None \<Rightarrow> [])
          @ (case stderr_pipe c of
               Some prh \<Rightarrow> [(StderrRead, pipe9x_read_event prh)] | None \<Rightarrow> [])
       else [])
    @ (if sizeof_MessageHeader + sizeof_int32 \<le> sendbuf_available
       then (case process c of
               Some h \<Rightarrow>
                 if stdout_pipe c = None \<and> stderr_pipe c = None then [(ProcessExit, h)] else []
             | None \<Rightarrow> [])
       else [])
    @ (case stdin_pipe c of
         Some pwh \<Rightarrow> if pipe9x_write_pending pwh then [(StdinWrite, pipe9x_write_event pwh)] else []
       | None \<Rightarrow> []))"

text \<open>
  The socket event (lines 807 to 813), for one connection:
  \<^verbatim>\<open>connection_flush(i) && connection_read(i)\<close>.
\<close>

definition socket_ready ::
  "Connection \<Rightarrow> send_result \<Rightarrow> recv_result \<Rightarrow> (nat \<Rightarrow> msg_env) \<Rightarrow> outcome" where
  "socket_ready c sent read_bytes envs =
     (case connection_flush c sent of
        Open c1 es1 \<Rightarrow> after es1 (connection_read c1 read_bytes envs)
      | Closed c1 es1 \<Rightarrow> Closed c1 es1
      | Crashed f es1 \<Rightarrow> Crashed f es1)"

text \<open>
  A woken handle (lines 821 to 860), for one connection: \<open>None\<close> when none of the four
  tests matches and the loop goes on to the next connection. Modelled from the spec:
  \<^verbatim>\<open>pipe9x_write_result\<close> consumes the completed write, after which no write is in
  flight.
\<close>

definition woke_connection :: "Connection \<Rightarrow> HANDLE \<Rightarrow> wake_env \<Rightarrow> outcome option" where
  "woke_connection c woke_handle env =
     (if stdout_pipe c \<noteq> None \<and> woke_handle = pipe9x_read_event (the (stdout_pipe c))
      then Some (pipe_read c StdoutPipe CMD_O env)
      else if stderr_pipe c \<noteq> None \<and> woke_handle = pipe9x_read_event (the (stderr_pipe c))
      then Some (pipe_read c StderrPipe CMD_E env)
      else if stdin_pipe c \<noteq> None \<and> woke_handle = pipe9x_write_event (the (stdin_pipe c))
      then (let c1 = c\<lparr>stdin_pipe := Some ((the (stdin_pipe c))\<lparr>write_pending := False\<rparr>)\<rparr>
            in if write_result env \<noteq> ERROR_SUCCESS then Some (Closed c1 []) else Some (Open c1 []))
      else if Some woke_handle = process c
      then Some (process_exit c (exit_code env) (send_first env))
      else None)"

text \<open>
  The life of one connection is a sequence of events of the main loop: the socket event,
  with the results of \<^verbatim>\<open>send\<close> and \<^verbatim>\<open>recv\<close> and the answers for each message, or a
  woken handle. \<^verbatim>\<open>WaitForMultipleObjects\<close> returns a handle of the wait set, and the
  handles of different connections are different objects: a woken handle concerns the
  connection only if the connection has put it into the wait set.
\<close>

datatype session_event =
    SocketReady send_result recv_result "nat \<Rightarrow> msg_env"
  | Woken HANDLE wake_env

fun session_step :: "Connection \<Rightarrow> session_event \<Rightarrow> outcome" where
  "session_step c (SocketReady sent read_bytes envs) = socket_ready c sent read_bytes envs"
| "session_step c (Woken woke_handle env) =
     (if woke_handle \<in> snd ` set (wait_handles_of c)
      then (case woke_connection c woke_handle env of Some r \<Rightarrow> r | None \<Rightarrow> Open c [])
      else Open c [])"

fun session_run :: "Connection \<Rightarrow> session_event list \<Rightarrow> outcome" where
  "session_run c [] = Open c []"
| "session_run c (ev # evs) =
     (case session_step c ev of
        Open c1 es1 \<Rightarrow> after es1 (session_run c1 evs)
      | Closed c1 es1 \<Rightarrow> Closed c1 es1
      | Crashed f es1 \<Rightarrow> Crashed f es1)"

text \<open>The commands of the messages put into the send buffer, in order.\<close>

fun queued_commands :: "effect list \<Rightarrow> byte list" where
  "queued_commands [] = []"
| "queued_commands (Queued cmd payload # es) = cmd # queued_commands es"
| "queued_commands (e # es) = queued_commands es"

fun spawns :: "effect list \<Rightarrow> nat" where
  "spawns [] = 0"
| "spawns (CreateProcess program cmdline cwd # es) = Suc (spawns es)"
| "spawns (e # es) = spawns es"

text \<open>A connection without a child: no process and no output pipe.\<close>

definition idle :: "Connection \<Rightarrow> bool" where
  "idle c \<longleftrightarrow> process c = None \<and> stdout_pipe c = None \<and> stderr_pipe c = None"

text \<open>
  The counters of a connection stay within its two arrays. \<^verbatim>\<open>recv\<close> is given the free
  space of the receive buffer as its length and returns no more bytes than that.
\<close>

definition buffers_ok :: "Connection \<Rightarrow> bool" where
  "buffers_ok c \<longleftrightarrow>
     length (recvbuf c) = RECVBUF_SIZE \<and> recvbuf_used c \<le> RECVBUF_SIZE
   \<and> length (sendbuf c) = SENDBUF_SIZE \<and> sendbuf_used c \<le> SENDBUF_SIZE"

fun answers_ok :: "Connection \<Rightarrow> session_event \<Rightarrow> bool" where
  "answers_ok c (SocketReady sent (Received data) envs)
     = (length data \<le> RECVBUF_SIZE - recvbuf_used c)"
| "answers_ok c ev = True"

section \<open>The table of connections\<close>

text \<open>
  The globals \<open>connections\<close> (an array of \<open>MAX_CONNECTIONS\<close> structs),
  \<open>num_connections\<close> and \<open>next_connection_id\<close>.
\<close>

record Server =
  connections :: "Connection list"
  num_connections :: nat
  next_connection_id :: "32 word"

text \<open>
  \<open>connection_init\<close> fills the first free entry field by field; the two arrays keep the
  bytes they held.
\<close>

definition connection_init :: "Server \<Rightarrow> 32 word \<Rightarrow> Server \<times> effect list" where
  "connection_init s newsock =
     (if num_connections s = MAX_CONNECTIONS then (s, [Closesocket newsock])
      else
        (let connection = (connections s ! num_connections s)
               \<lparr>conn_id := next_connection_id s,
                state := CS_SETUP,
                sock := newsock,
                recvbuf_used := 0,
                sendbuf_used := 0,
                application_path := None,
                command_line := None,
                working_directory := None,
                process := None,
                stdin_pipe := None,
                stdout_pipe := None,
                stderr_pipe := None\<rparr>
         in (s\<lparr>connections := (connections s)[num_connections s := connection],
               num_connections := num_connections s + 1,
               next_connection_id := next_connection_id s + 1\<rparr>, [])))"

text \<open>
  The first \<open>n\<close> bytes of a little-endian 32-bit integer \<open>dst\<close> replaced by those of
  \<open>src\<close>.
\<close>

definition copy_int_bytes :: "nat \<Rightarrow> 32 word \<Rightarrow> 32 word \<Rightarrow> 32 word" where
  "copy_int_bytes n src dst =
     (if 4 \<le> n then src
      else of_nat (unat src mod 256 ^ n + (unat dst div 256 ^ n) * 256 ^ n))"

text \<open>
  \<^verbatim>\<open>memmove(dst, src, n)\<close> between two entries of the table, for \<open>n\<close> of at most
  \<open>12 + RECVBUF_SIZE\<close>. On the 32-bit machine the server is written for, a
  \<^verbatim>\<open>struct Connection\<close> starts with \<open>id\<close> (bytes 0 to 3), \<open>state\<close> (bytes 4 to 7),
  \<open>sock\<close> (bytes 8 to 11) and \<open>recvbuf\<close> (from byte 12). The values of
  \<open>ConnectionState\<close> are 0, 1 and 2: they differ in byte 4 only.
\<close>

definition memmove_connection :: "nat \<Rightarrow> Connection \<Rightarrow> Connection \<Rightarrow> Connection" where
  "memmove_connection n src dst =
     dst\<lparr>conn_id := copy_int_bytes n (conn_id src) (conn_id dst),
         state := (if 4 < n then state src else state dst),
         sock := copy_int_bytes (n - 8) (sock src) (sock dst),
         recvbuf := take (n - 12) (recvbuf src) @ drop (n - 12) (recvbuf dst)\<rparr>"

text \<open>
  \<open>connection_close\<close>. Its last two statements are
  \<^verbatim>\<open>memmove((connections + connection_idx), (connections + connection_idx + 1),
  (num_connections - connection_idx - 1)); --num_connections;\<close>
  where the third argument of \<^verbatim>\<open>memmove\<close> is a number of bytes.
\<close>

definition connection_close :: "Server \<Rightarrow> nat \<Rightarrow> Server \<times> effect list" where
  "connection_close s connection_idx =
     (let connection = connections s ! connection_idx;
          es = Closesocket (sock connection)
               # (case process connection of
                    Some h \<Rightarrow> [TerminateProcess h, CloseHandle (Some h)]
                  | None \<Rightarrow> []);
          closed = connection
               \<lparr>sock := INVALID_SOCKET,
                process := None,
                stdin_pipe := None,
                stderr_pipe := None,
                stdout_pipe := None,
                working_directory := None,
                command_line := None,
                application_path := None\<rparr>;
          n = num_connections s - connection_idx - 1;
          moved = (if n = 0 then closed
                   else memmove_connection n (connections s ! (connection_idx + 1)) closed)
      in (s\<lparr>connections := (connections s)[connection_idx := moved],
            num_connections := num_connections s - 1\<rparr>, es))"

text \<open>
  The table after a function has run on entry \<open>connection_idx\<close>: the entry is written
  back, and closed when the function has called \<open>connection_close\<close>.
\<close>

fun commit :: "Server \<Rightarrow> nat \<Rightarrow> outcome \<Rightarrow> (Server \<times> effect list) option" where
  "commit s connection_idx (Open c es) =
     Some (s\<lparr>connections := (connections s)[connection_idx := c]\<rparr>, es)"
| "commit s connection_idx (Closed c es) =
     (case connection_close (s\<lparr>connections := (connections s)[connection_idx := c]\<rparr>)
             connection_idx of
        (s1, es1) \<Rightarrow> Some (s1, es @ es1))"
| "commit s connection_idx (Crashed f es) = None"

text \<open>
  The wait set of one iteration of the main loop (lines 721 to 769): the socket event,
  then the handles of each connection. Each entry carries the index of its connection
  and the statement that stored it; \<open>wait_handles\<close> is the array the source fills.
\<close>

definition wait_set :: "Server \<Rightarrow> HANDLE \<Rightarrow> (nat option \<times> wait_kind option \<times> HANDLE) list" where
  "wait_set s wsevent =
     (None, None, wsevent)
     # concat (map (\<lambda>i. map (\<lambda>(k, h). (Some i, Some k, h)) (wait_handles_of (connections s ! i)))
                 [0..<num_connections s])"

definition wait_handles :: "Server \<Rightarrow> HANDLE \<Rightarrow> HANDLE list" where
  "wait_handles s wsevent = map (\<lambda>(i, k, h). h) (wait_set s wsevent)"

definition num_wait_handles :: "Server \<Rightarrow> HANDLE \<Rightarrow> nat" where
  "num_wait_handles s wsevent = length (wait_handles s wsevent)"

text \<open>
  The loop over the connections for a woken handle (lines 821 to 860): the first
  connection for which one of the four tests matches is served, and the loop ends.
\<close>

definition main_woken :: "Server \<Rightarrow> HANDLE \<Rightarrow> wake_env \<Rightarrow> (Server \<times> effect list) option" where
  "main_woken s woke_handle env =
     (case find (\<lambda>i. woke_connection (connections s ! i) woke_handle env \<noteq> None)
             [0..<num_connections s] of
        None \<Rightarrow> Some (s, [])
      | Some i \<Rightarrow> commit s i (the (woke_connection (connections s ! i) woke_handle env)))"

text \<open>
  The handles a connection holds, and the tables in which the handles of the live
  connections are all different, as the handles of different objects are.
\<close>

definition handles_of :: "Connection \<Rightarrow> HANDLE list" where
  "handles_of c =
     (case stdout_pipe c of Some prh \<Rightarrow> [pipe9x_read_event prh] | None \<Rightarrow> [])
   @ (case stderr_pipe c of Some prh \<Rightarrow> [pipe9x_read_event prh] | None \<Rightarrow> [])
   @ (case stdin_pipe c of Some pwh \<Rightarrow> [pipe9x_write_event pwh] | None \<Rightarrow> [])
   @ (case process c of Some h \<Rightarrow> [h] | None \<Rightarrow> [])"

definition distinct_handles :: "Server \<Rightarrow> bool" where
  "distinct_handles s \<longleftrightarrow>
     distinct (concat (map (\<lambda>i. handles_of (connections s ! i)) [0..<num_connections s]))"

section \<open>Example states\<close>

text \<open>
  A connection as \<open>connection_init\<close> leaves it in a table that was all zero, and
  answers of a system in which every call succeeds.
\<close>

definition example_connection :: Connection where
  "example_connection =
     \<lparr>conn_id = 1, state = CS_SETUP, sock = 100,
      recvbuf = replicate 73728 0, recvbuf_used = 0,
      sendbuf = replicate 131072 0, sendbuf_used = 0,
      application_path = None, command_line = None, working_directory = None,
      process = None, stdin_pipe = None, stdout_pipe = None, stderr_pipe = None\<rparr>"

definition example_env :: msg_env where
  "example_env =
     \<lparr>malloc_ok = True,
      create_stdin = (ERROR_SUCCESS, 5, 6),
      create_stdout = (ERROR_SUCCESS, 7, 11),
      create_stderr = (ERROR_SUCCESS, 8, 12),
      file_found = True,
      path_search_result = None,
      create_process = Some (9, 13),
      read_initiate_stdout = ERROR_IO_PENDING,
      read_initiate_stderr = ERROR_IO_PENDING,
      write_initiate = ERROR_IO_PENDING\<rparr>"

text \<open>
  The connection after it has received the first four bytes of the message \<^verbatim>\<open>A\<close> with
  payload \<^verbatim>\<open>hi\<close>, and after it has received the whole message and one byte more.
\<close>

definition partial_message :: Connection where
  "partial_message =
     example_connection\<lparr>recvbuf := [65, 2, 0, 104] @ replicate 73724 0, recvbuf_used := 4\<rparr>"

definition whole_message :: Connection where
  "whole_message =
     example_connection\<lparr>recvbuf := [65, 2, 0, 104, 105, 69] @ replicate 73722 0,
                          recvbuf_used := 6\<rparr>"

text \<open>
  The connection with a child running (the state after the messages \<^verbatim>\<open>A\<close> and \<^verbatim>\<open>E\<close>
  with the answers of \<open>example_env\<close>), and the same after both output pipes have reached
  the end of file.
\<close>

definition running_connection :: Connection where
  "running_connection =
     example_connection
       \<lparr>application_path := Some [104, 105],
        process := Some 9,
        stdin_pipe := Some \<lparr>write_event = 6, write_pending = False\<rparr>,
        stdout_pipe := Some \<lparr>read_event = 7\<rparr>,
        stderr_pipe := Some \<lparr>read_event = 8\<rparr>\<rparr>"

definition drained_connection :: Connection where
  "drained_connection = running_connection\<lparr>stdout_pipe := None, stderr_pipe := None\<rparr>"

text \<open>Tables: empty, full, and with one connection.\<close>

definition empty_server :: Server where
  "empty_server =
     \<lparr>connections = replicate 16 (example_connection\<lparr>conn_id := 0, sock := 0\<rparr>),
      num_connections = 0, next_connection_id = 1\<rparr>"

definition full_server :: Server where
  "full_server = empty_server\<lparr>num_connections := 16, next_connection_id := 17\<rparr>"

definition running_server :: Server where
  "running_server =
     empty_server\<lparr>connections := (connections empty_server)[0 := running_connection],
                  num_connections := 1, next_connection_id := 2\<rparr>"

definition drained_server :: Server where
  "drained_server =
     empty_server\<lparr>connections := (connections empty_server)[0 := drained_connection],
                  num_connections := 1, next_connection_id := 2\<rparr>"

text \<open>
  The connection after the message \<^verbatim>\<open>A\<close> with payload \<^verbatim>\<open>hi\<close>; a connection that
  has just received the three bytes of the message \<^verbatim>\<open>E\<close>; answers in which the second
  \<^verbatim>\<open>pipe9x_create\<close> fails with error code 8.
\<close>

definition after_A :: Connection where
  "after_A = example_connection\<lparr>application_path := Some [104, 105]\<rparr>"

definition received_E :: "Connection \<Rightarrow> Connection" where
  "received_E c = c\<lparr>recvbuf := [69, 0, 0] @ replicate 73725 0, recvbuf_used := 3\<rparr>"

definition stdout_fails :: msg_env where
  "stdout_fails = example_env\<lparr>create_stdout := (8, 7, 11)\<rparr>"

text \<open>
  Answers to a woken handle: a read of the two bytes \<^verbatim>\<open>ok\<close>, a write that completed,
  the exit code 0, and a socket that takes no bytes for now.
\<close>

definition example_wake :: wake_env where
  "example_wake =
     \<lparr>read_result = (ERROR_SUCCESS, [111, 107]),
      read_initiate = ERROR_IO_PENDING,
      write_result = ERROR_SUCCESS,
      exit_code = 0,
      send_first = SendWouldBlock,
      send_second = SendWouldBlock\<rparr>"

text \<open>
  A client sends \<^verbatim>\<open>A("hi")\<close>, \<^verbatim>\<open>E\<close>, \<^verbatim>\<open>I("ab")\<close> and \<^verbatim>\<open>I("x")\<close>, which arrive
  together; then the write to the child completes; then the socket event fires with
  nothing new to read.
\<close>

definition two_writes :: "session_event list" where
  "two_writes =
     [SocketReady SendWouldBlock
        (Received [65, 2, 0, 104, 105, 69, 0, 0, 73, 2, 0, 97, 98, 73, 1, 0, 120])
        (\<lambda>n. example_env),
      Woken 6 example_wake,
      SocketReady SendWouldBlock RecvWouldBlock (\<lambda>n. example_env)]"

text \<open>A table with two connections.\<close>

definition two_connections :: Server where
  "two_connections =
     empty_server
       \<lparr>connections := (connections empty_server)
            [0 := example_connection\<lparr>conn_id := 255\<rparr>,
             1 := after_A\<lparr>conn_id := 256, sock := 101\<rparr>],
        num_connections := 2, next_connection_id := 257\<rparr>"

text \<open>
  Answers to a woken read event when the child has closed its end of the pipe, and two
  runs of a new connection. In \<open>one_child\<close> the client sends \<^verbatim>\<open>A("hi")\<close> and \<^verbatim>\<open>E\<close>,
  the child writes \<^verbatim>\<open>ok\<close>, closes its output and exits. In \<open>second_child\<close> the client,
  which has not read anything yet, then sends \<^verbatim>\<open>E\<close> once more, and the second child
  does the same as the first.
\<close>

definition eof_wake :: wake_env where
  "eof_wake = example_wake\<lparr>read_result := (ERROR_BROKEN_PIPE, [])\<rparr>"

definition one_child :: "session_event list" where
  "one_child =
     [SocketReady SendWouldBlock (Received [65, 2, 0, 104, 105, 69, 0, 0]) (\<lambda>n. example_env),
      Woken 7 example_wake,
      Woken 7 eof_wake,
      Woken 8 eof_wake,
      Woken 9 example_wake]"

definition second_child :: "session_event list" where
  "second_child =
     one_child
     @ [SocketReady SendWouldBlock (Received [69, 0, 0]) (\<lambda>n. example_env),
        Woken 7 example_wake,
        Woken 7 eof_wake,
        Woken 8 eof_wake,
        Woken 9 example_wake]"

section \<open>Messages: parsing and encoding\<close>

lemma header_payload_length_MessageHeader_bytes:
  "header_payload_length (MessageHeader_bytes cmd n @ rest) = n mod 65536"
  by (simp add: header_payload_length_def MessageHeader_bytes_def unat_of_nat)

lemma recv_pending_drain_recvbuf:
  assumes "k \<le> recvbuf_used c" "recvbuf_used c \<le> length (recvbuf c)"
  shows "recv_pending (drain_recvbuf k c) = drop k (recv_pending c)"
  using assms
  by (simp add: recv_pending_def drain_recvbuf_def memmove_def drop_take)

lemma handle_message_recvbuf:
  "handle_message env cmd payload c = Consumed c1 es1 \<Longrightarrow>
     recvbuf c1 = recvbuf c \<and> recvbuf_used c1 = recvbuf_used c"
  by (auto simp: handle_message_def handle_A_def handle_C_def handle_W_def handle_E_def
        handle_I_def spawn_child_def store_string_def Let_def
      split: if_splits prod.splits option.splits)

lemma next_message_None:
  "used \<le> length buf \<Longrightarrow>
   (next_message buf used = None) =
     (length (take used buf) < 3
      \<or> length (take used buf) < 3 + (unat (take used buf ! 1) + 256 * unat (take used buf ! 2)))"
  by (auto simp: next_message_def Let_def sizeof_MessageHeader_def header_payload_length_def)

lemma next_message_Some:
  assumes "used \<le> length buf" "next_message buf used = Some (cmd, payload, k)"
  shows "\<exists>lo hi rest. take used buf = cmd # lo # hi # payload @ rest
            \<and> length payload = unat lo + 256 * unat hi \<and> k = 3 + length payload"
proof -
  let ?n = "header_payload_length buf"
  from assms(2) have used: "3 + ?n \<le> used" and k: "k = 3 + ?n"
    and cmd: "cmd = buf ! 0" and payload: "payload = take ?n (drop 3 buf)"
    by (auto simp: next_message_def Let_def sizeof_MessageHeader_def header_command_def
          split: if_splits)
  from used assms(1) have len: "3 + ?n \<le> length buf" by simp
  then obtain b0 b1 b2 tl where buf: "buf = b0 # b1 # b2 # tl"
    by (cases buf; cases "tl buf"; cases "tl (tl buf)") auto
  have n: "?n = unat b1 + 256 * unat b2"
    by (simp add: header_payload_length_def buf)
  from len buf have lp: "length payload = ?n"
    by (simp add: payload)
  from used have "used = 3 + (?n + (used - 3 - ?n))"
    by simp
  then have "take used buf
      = take 3 buf @ take ?n (drop 3 buf) @ take (used - 3 - ?n) (drop (3 + ?n) buf)"
    by (metis take_add drop_drop add.commute)
  moreover have "take 3 buf = [cmd, b1, b2]"
    by (simp add: buf cmd)
  ultimately have "take used buf
      = cmd # b1 # b2 # payload @ take (used - 3 - ?n) (drop (3 + ?n) buf)"
    by (simp add: payload)
  with lp n k show ?thesis by auto
qed

text \<open>
  C5. With the received bytes \<open>recv_pending c\<close> of a connection: no message is found
  exactly when fewer than 3 bytes are there or fewer than 3 plus the payload length,
  which is read from bytes 1 and 2, low byte first; then the loop of \<open>connection_read\<close>
  returns with the connection as it was. Otherwise the bytes are a header with the
  command, the payload of the announced length and a rest; \<open>total_length\<close> is 3 plus the
  payload length, and when the message has been handled the loop goes on with exactly
  the rest in the buffer.
\<close>

theorem C5_frame_parsing:
  assumes "recvbuf_used c \<le> length (recvbuf c)"
  shows "(next_message (recvbuf c) (recvbuf_used c) = None \<longleftrightarrow>
            length (recv_pending c) < 3
          \<or> length (recv_pending c)
              < 3 + (unat (recv_pending c ! 1) + 256 * unat (recv_pending c ! 2)))
       \<and> (next_message (recvbuf c) (recvbuf_used c) = None \<longrightarrow>
            process_messages envs n c es = Open c es)
       \<and> (\<forall>cmd payload k. next_message (recvbuf c) (recvbuf_used c) = Some (cmd, payload, k) \<longrightarrow>
            (\<exists>lo hi rest. recv_pending c = cmd # lo # hi # payload @ rest
                \<and> length payload = unat lo + 256 * unat hi
                \<and> k = 3 + length payload
                \<and> (\<forall>c1 es1. handle_message (envs n) cmd payload c = Consumed c1 es1 \<longrightarrow>
                      recv_pending (drain_recvbuf k c1) = rest
                    \<and> process_messages envs n c es
                        = process_messages envs (Suc n) (drain_recvbuf k c1) (es @ es1))))"
proof (intro conjI allI impI)
  show "next_message (recvbuf c) (recvbuf_used c) = None \<longleftrightarrow>
            length (recv_pending c) < 3
          \<or> length (recv_pending c)
              < 3 + (unat (recv_pending c ! 1) + 256 * unat (recv_pending c ! 2))"
    using next_message_None [OF assms] by (simp add: recv_pending_def)
next
  assume "next_message (recvbuf c) (recvbuf_used c) = None"
  then show "process_messages envs n c es = Open c es"
    by (simp add: process_messages.simps)
next
  fix cmd payload k
  assume found: "next_message (recvbuf c) (recvbuf_used c) = Some (cmd, payload, k)"
  from next_message_Some [OF assms found] obtain lo hi rest
    where split: "recv_pending c = cmd # lo # hi # payload @ rest"
      and len: "length payload = unat lo + 256 * unat hi" and k: "k = 3 + length payload"
    by (auto simp: recv_pending_def)
  have "recv_pending (drain_recvbuf k c1) = rest
      \<and> process_messages envs n c es
          = process_messages envs (Suc n) (drain_recvbuf k c1) (es @ es1)"
    if handled: "handle_message (envs n) cmd payload c = Consumed c1 es1" for c1 es1
  proof -
    from handle_message_recvbuf [OF handled]
    have same: "recvbuf c1 = recvbuf c" "recvbuf_used c1 = recvbuf_used c"
      by simp_all
    from found have "k \<le> recvbuf_used c"
      by (auto simp: next_message_def Let_def split: if_splits)
    with assms same have "recv_pending (drain_recvbuf k c1) = drop k (recv_pending c1)"
      by (simp add: recv_pending_drain_recvbuf)
    also have "\<dots> = rest"
      using split same k by (simp add: recv_pending_def drop_Cons')
    finally show ?thesis
      using found handled by (simp add: process_messages.simps [of envs n c])
  qed
  with split len k
  show "\<exists>lo hi rest. recv_pending c = cmd # lo # hi # payload @ rest
                \<and> length payload = unat lo + 256 * unat hi
                \<and> k = 3 + length payload
                \<and> (\<forall>c1 es1. handle_message (envs n) cmd payload c = Consumed c1 es1 \<longrightarrow>
                      recv_pending (drain_recvbuf k c1) = rest
                    \<and> process_messages envs n c es
                        = process_messages envs (Suc n) (drain_recvbuf k c1) (es @ es1))"
    by blast
qed

theorem C5_frame_parsing_witness:
  "recvbuf_used partial_message \<le> length (recvbuf partial_message)
   \<and> next_message (recvbuf partial_message) (recvbuf_used partial_message) = None
   \<and> process_messages (\<lambda>n. example_env) 0 partial_message [] = Open partial_message []
   \<and> recvbuf_used whole_message \<le> length (recvbuf whole_message)
   \<and> next_message (recvbuf whole_message) (recvbuf_used whole_message)
       = Some (CMD_A, [104, 105], 5)
   \<and> handle_message example_env CMD_A [104, 105] whole_message
       = Consumed (whole_message\<lparr>application_path := Some [104, 105]\<rparr>) []
   \<and> recv_pending whole_message = [65, 2, 0, 104, 105, 69]
   \<and> recv_pending (drain_recvbuf 5 (whole_message\<lparr>application_path := Some [104, 105]\<rparr>))
       = [69]"
proof -
  have h1: "recvbuf_used partial_message \<le> length (recvbuf partial_message)"
    by (simp add: partial_message_def example_connection_def)
  have h2: "recvbuf_used whole_message \<le> length (recvbuf whole_message)"
    by (simp add: whole_message_def example_connection_def)
  have n1: "next_message (recvbuf partial_message) (recvbuf_used partial_message) = None"
    by (simp add: partial_message_def example_connection_def next_message_def
          sizeof_MessageHeader_def header_payload_length_def)
  have n2: "next_message (recvbuf whole_message) (recvbuf_used whole_message)
              = Some (CMD_A, [104, 105], 5)"
    by (simp add: whole_message_def example_connection_def next_message_def
          sizeof_MessageHeader_def header_payload_length_def header_command_def)
  have hm: "handle_message example_env CMD_A [104, 105] whole_message
              = Consumed (whole_message\<lparr>application_path := Some [104, 105]\<rparr>) []"
    by (simp add: handle_message_def handle_A_def store_string_def example_env_def)
  have rp: "recv_pending whole_message = [65, 2, 0, 104, 105, 69]"
    by (simp add: whole_message_def example_connection_def recv_pending_def)
  from C5_frame_parsing [OF h1, of "\<lambda>n. example_env" 0 "[]"] n1
  have p1: "process_messages (\<lambda>n. example_env) 0 partial_message [] = Open partial_message []"
    by blast
  from C5_frame_parsing [OF h2, of "\<lambda>n. example_env" 0 "[]"] n2 hm rp
  have p2: "recv_pending (drain_recvbuf 5 (whole_message\<lparr>application_path := Some [104, 105]\<rparr>))
              = [69]"
    by auto
  from h1 h2 n1 n2 hm rp p1 p2 show ?thesis
    by simp
qed

lemma next_message_encoded:
  assumes "length payload \<le> 65535"
    and "3 + length payload \<le> used"
  shows "next_message (MessageHeader_bytes cmd (length payload) @ payload @ rest) used
           = Some (cmd, payload, 3 + length payload)"
proof -
  have "header_payload_length (MessageHeader_bytes cmd (length payload) @ payload @ rest)
          = length payload"
    using assms(1) by (simp add: header_payload_length_MessageHeader_bytes)
  moreover have "header_command (MessageHeader_bytes cmd (length payload) @ payload @ rest) = cmd"
    by (simp add: header_command_def MessageHeader_bytes_def)
  moreover have "drop 3 (MessageHeader_bytes cmd (length payload) @ payload @ rest)
      = payload @ rest"
    by (simp add: MessageHeader_bytes_def)
  ultimately show ?thesis
    using assms(2) by (simp add: next_message_def sizeof_MessageHeader_def)
qed

lemma connection_write_would_block:
  assumes "length payload \<le> 65535"
    and "sendbuf_used c + (3 + length payload) \<le> SENDBUF_SIZE"
    and "length (sendbuf c) = SENDBUF_SIZE"
  shows "\<exists>c'. connection_write c cmd payload SendWouldBlock = Open c' [Queued cmd payload]
           \<and> send_pending c' = send_pending c @ MessageHeader_bytes cmd (length payload) @ payload"
proof -
  let ?wire = "MessageHeader_bytes cmd (length payload) @ payload"
  let ?c1 = "c\<lparr>sendbuf := memcpy (sendbuf c) (sendbuf_used c) ?wire,
               sendbuf_used := sendbuf_used c + sizeof_MessageHeader + length payload\<rparr>"
  have len: "length ?wire = 3 + length payload"
    by (simp add: MessageHeader_bytes_def)
  have "connection_flush ?c1 SendWouldBlock = Open ?c1 []"
    by (simp add: connection_flush_def sizeof_MessageHeader_def)
  then have "connection_write c cmd payload SendWouldBlock = Open ?c1 [Queued cmd payload]"
    using assms(1,2) by (simp add: connection_write_def sizeof_MessageHeader_def)
  moreover have "send_pending ?c1 = send_pending c @ ?wire"
    using assms(2,3) len
    by (simp add: send_pending_def memcpy_def sizeof_MessageHeader_def)
  ultimately show ?thesis by blast
qed

text \<open>
  C6. A message of at most 65535 payload bytes that \<open>connection_write\<close> puts into a
  send buffer with room for it (and that the socket does not take yet) lies behind the
  bytes already waiting, as \<open>wire\<close>: the command, the payload length as two bytes, low
  byte first, and the payload. Parsing \<open>wire\<close>, whatever follows it, finds the command
  and the payload again and a total length that is the length of \<open>wire\<close>.
\<close>

theorem C6_encode_parse_roundtrip:
  assumes "length payload \<le> 65535"
    and "sendbuf_used c + (3 + length payload) \<le> SENDBUF_SIZE"
    and "length (sendbuf c) = SENDBUF_SIZE"
  shows "\<exists>c' wire. connection_write c cmd payload SendWouldBlock = Open c' [Queued cmd payload]
           \<and> send_pending c' = send_pending c @ wire
           \<and> wire = cmd # of_nat (length payload mod 256) # of_nat (length payload div 256)
                      # payload
           \<and> (\<forall>rest used. length wire \<le> used \<longrightarrow>
                 next_message (wire @ rest) used = Some (cmd, payload, length wire))"
proof -
  let ?wire = "MessageHeader_bytes cmd (length payload) @ payload"
  have len: "length ?wire = 3 + length payload"
    by (simp add: MessageHeader_bytes_def)
  have bytes: "?wire = cmd # of_nat (length payload mod 256) # of_nat (length payload div 256)
                      # payload"
    using assms(1) by (simp add: MessageHeader_bytes_def)
  from connection_write_would_block [OF assms] obtain c'
    where "connection_write c cmd payload SendWouldBlock = Open c' [Queued cmd payload]"
      and "send_pending c' = send_pending c @ ?wire"
    by blast
  moreover have "\<forall>rest used. length ?wire \<le> used \<longrightarrow>
      next_message (?wire @ rest) used = Some (cmd, payload, length ?wire)"
    using next_message_encoded [OF assms(1)] len by simp
  ultimately show ?thesis
    unfolding bytes by blast
qed

theorem C6_encode_parse_roundtrip_witness:
  "length [104, 105 :: byte] \<le> 65535
   \<and> sendbuf_used example_connection + (3 + length [104, 105 :: byte]) \<le> SENDBUF_SIZE
   \<and> length (sendbuf example_connection) = SENDBUF_SIZE
   \<and> (\<exists>c'. connection_write example_connection CMD_O [104, 105] SendWouldBlock
                    = Open c' [Queued CMD_O [104, 105]]
         \<and> send_pending c' = [79, 2, 0, 104, 105])
   \<and> next_message ([79, 2, 0, 104, 105] @ [88, 4, 0]) 8 = Some (CMD_O, [104, 105], 5)"
proof -
  have h1: "length [104, 105 :: byte] \<le> 65535"
    by simp
  have h2: "sendbuf_used example_connection + (3 + length [104, 105 :: byte]) \<le> SENDBUF_SIZE"
    by (simp add: example_connection_def SENDBUF_SIZE_def)
  have h3: "length (sendbuf example_connection) = SENDBUF_SIZE"
    by (simp add: example_connection_def SENDBUF_SIZE_def)
  have empty: "send_pending example_connection = []"
    by (simp add: send_pending_def example_connection_def)
  from C6_encode_parse_roundtrip [OF h1 h2 h3, of CMD_O] obtain c' wire
    where "connection_write example_connection CMD_O [104, 105] SendWouldBlock
             = Open c' [Queued CMD_O [104, 105]]"
      and "send_pending c' = send_pending example_connection @ wire"
      and "wire = [79, 2, 0, 104, 105]"
      and "\<forall>rest used. length wire \<le> used \<longrightarrow>
             next_message (wire @ rest) used = Some (CMD_O, [104, 105], length wire)"
    by auto
  with empty h1 h2 h3 show ?thesis
    by auto
qed

section \<open>The table of connections\<close>

text \<open>
  C7. In a table of \<open>MAX_CONNECTIONS\<close> entries: with fewer than 16 connections,
  \<open>connection_init\<close> closes nothing, counts one connection more, leaves the
  connections that were there as they were, and the new one is in the state
  \<open>CS_SETUP\<close> with the new socket, both buffers empty and no string, process or pipe;
  with 16 connections the socket is closed and the table is as it was.
\<close>

theorem C7_connection_init:
  assumes "length (connections s) = MAX_CONNECTIONS"
  shows "(num_connections s < MAX_CONNECTIONS \<longrightarrow>
           (\<exists>s'. connection_init s newsock = (s', [])
              \<and> num_connections s' = num_connections s + 1
              \<and> (\<forall>i < num_connections s. connections s' ! i = connections s ! i)
              \<and> state (connections s' ! num_connections s) = CS_SETUP
              \<and> sock (connections s' ! num_connections s) = newsock
              \<and> recvbuf_used (connections s' ! num_connections s) = 0
              \<and> sendbuf_used (connections s' ! num_connections s) = 0
              \<and> application_path (connections s' ! num_connections s) = None
              \<and> command_line (connections s' ! num_connections s) = None
              \<and> working_directory (connections s' ! num_connections s) = None
              \<and> process (connections s' ! num_connections s) = None
              \<and> stdin_pipe (connections s' ! num_connections s) = None
              \<and> stdout_pipe (connections s' ! num_connections s) = None
              \<and> stderr_pipe (connections s' ! num_connections s) = None))
       \<and> (num_connections s = MAX_CONNECTIONS \<longrightarrow>
            connection_init s newsock = (s, [Closesocket newsock]))"
  using assms by (simp add: connection_init_def Let_def)

theorem C7_connection_init_witness:
  "length (connections empty_server) = MAX_CONNECTIONS
   \<and> num_connections empty_server < MAX_CONNECTIONS
   \<and> (\<exists>s'. connection_init empty_server 100 = (s', [])
         \<and> num_connections s' = 1
         \<and> state (connections s' ! 0) = CS_SETUP
         \<and> sock (connections s' ! 0) = 100
         \<and> recvbuf_used (connections s' ! 0) = 0
         \<and> sendbuf_used (connections s' ! 0) = 0
         \<and> application_path (connections s' ! 0) = None
         \<and> process (connections s' ! 0) = None
         \<and> stdout_pipe (connections s' ! 0) = None)
   \<and> length (connections full_server) = MAX_CONNECTIONS
   \<and> num_connections full_server = MAX_CONNECTIONS
   \<and> connection_init full_server 100 = (full_server, [Closesocket 100])"
proof -
  have h1: "length (connections empty_server) = MAX_CONNECTIONS"
    and n1: "num_connections empty_server < MAX_CONNECTIONS"
    and z1: "num_connections empty_server = 0"
    by (simp_all add: empty_server_def MAX_CONNECTIONS_def)
  have h2: "length (connections full_server) = MAX_CONNECTIONS"
    and n2: "num_connections full_server = MAX_CONNECTIONS"
    by (simp_all add: full_server_def empty_server_def MAX_CONNECTIONS_def)
  from C7_connection_init [OF h1, of 100] n1 z1
  have "\<exists>s'. connection_init empty_server 100 = (s', [])
         \<and> num_connections s' = 1
         \<and> state (connections s' ! 0) = CS_SETUP
         \<and> sock (connections s' ! 0) = 100
         \<and> recvbuf_used (connections s' ! 0) = 0
         \<and> sendbuf_used (connections s' ! 0) = 0
         \<and> application_path (connections s' ! 0) = None
         \<and> process (connections s' ! 0) = None
         \<and> stdout_pipe (connections s' ! 0) = None"
    by auto
  moreover from C7_connection_init [OF h2, of 100] n2
  have "connection_init full_server 100 = (full_server, [Closesocket 100])"
    by blast
  ultimately show ?thesis
    using h1 n1 h2 n2 by blast
qed

section \<open>The wait set\<close>

lemma wait_handles_of_cases:
  "wait_handles_of c =
     (if sizeof_MessageHeader + PIPE_READ_SIZE \<le> SENDBUF_SIZE - sendbuf_used c
      then map (\<lambda>prh. (StdoutRead, pipe9x_read_event prh))
             (case stdout_pipe c of Some p \<Rightarrow> [p] | None \<Rightarrow> [])
         @ map (\<lambda>prh. (StderrRead, pipe9x_read_event prh))
             (case stderr_pipe c of Some p \<Rightarrow> [p] | None \<Rightarrow> [])
      else [])
   @ (if sizeof_MessageHeader + sizeof_int32 \<le> SENDBUF_SIZE - sendbuf_used c
         \<and> stdout_pipe c = None \<and> stderr_pipe c = None
      then map (Pair ProcessExit) (case process c of Some h \<Rightarrow> [h] | None \<Rightarrow> [])
      else [])
   @ map (\<lambda>pwh. (StdinWrite, pipe9x_write_event pwh))
       (filter pipe9x_write_pending (case stdin_pipe c of Some p \<Rightarrow> [p] | None \<Rightarrow> []))"
  unfolding wait_handles_of_def Let_def
  by (cases "stdout_pipe c"; cases "stderr_pipe c"; cases "process c"; cases "stdin_pipe c";
      cases "sizeof_MessageHeader + PIPE_READ_SIZE \<le> SENDBUF_SIZE - sendbuf_used c";
      cases "sizeof_MessageHeader + sizeof_int32 \<le> SENDBUF_SIZE - sendbuf_used c"; simp)

lemma wait_handles_of_length: "length (wait_handles_of c) \<le> 3"
  by (auto simp add: wait_handles_of_cases split: option.splits)

lemma wait_handles_of_StdoutRead:
  "(StdoutRead, h) \<in> set (wait_handles_of c) \<longleftrightarrow>
     sizeof_MessageHeader + PIPE_READ_SIZE \<le> SENDBUF_SIZE - sendbuf_used c
   \<and> (\<exists>prh. stdout_pipe c = Some prh \<and> h = pipe9x_read_event prh)"
  by (cases "stdout_pipe c") (auto simp add: wait_handles_of_cases)

lemma wait_handles_of_StderrRead:
  "(StderrRead, h) \<in> set (wait_handles_of c) \<longleftrightarrow>
     sizeof_MessageHeader + PIPE_READ_SIZE \<le> SENDBUF_SIZE - sendbuf_used c
   \<and> (\<exists>prh. stderr_pipe c = Some prh \<and> h = pipe9x_read_event prh)"
  by (cases "stderr_pipe c") (auto simp add: wait_handles_of_cases)

lemma wait_handles_of_ProcessExit:
  "(ProcessExit, h) \<in> set (wait_handles_of c) \<longleftrightarrow>
     sizeof_MessageHeader + sizeof_int32 \<le> SENDBUF_SIZE - sendbuf_used c
   \<and> stdout_pipe c = None \<and> stderr_pipe c = None \<and> process c = Some h"
  by (auto simp add: wait_handles_of_cases split: option.splits)

lemma wait_handles_of_StdinWrite:
  "(StdinWrite, h) \<in> set (wait_handles_of c) \<longleftrightarrow>
     (\<exists>pwh. stdin_pipe c = Some pwh \<and> pipe9x_write_pending pwh \<and> h = pipe9x_write_event pwh)"
  by (cases "stdin_pipe c") (auto simp add: wait_handles_of_cases)

lemma wait_set_entry:
  "(Some i, Some k, h) \<in> set (wait_set s wsevent) \<longleftrightarrow>
     i < num_connections s \<and> (k, h) \<in> set (wait_handles_of (connections s ! i))"
  by (auto simp: wait_set_def)

lemma length_concat_le:
  "(\<And>x. x \<in> set xs \<Longrightarrow> length (f x) \<le> k) \<Longrightarrow> length (concat (map f xs)) \<le> length xs * k"
  by (induction xs) (auto simp: add_le_mono)

text \<open>
  C2. For the connection at index \<open>i\<close>, whose send buffer holds no more than its size:
  if the wait set has an entry stored for its stdout or stderr read event, then \<open>i\<close> is
  a live connection and the send buffer has 3 + 32768 spare bytes; if it has an entry
  stored for the process handle, then the send buffer has 3 + 4 spare bytes and
  \<open>stdout_pipe\<close> and \<open>stderr_pipe\<close> are both \<^verbatim>\<open>NULL\<close>.
\<close>

theorem C2_wait_set_gates:
  assumes "sendbuf_used (connections s ! i) \<le> SENDBUF_SIZE"
  shows "((Some i, Some StdoutRead, h) \<in> set (wait_set s wsevent)
          \<or> (Some i, Some StderrRead, h) \<in> set (wait_set s wsevent) \<longrightarrow>
            i < num_connections s
          \<and> sendbuf_used (connections s ! i) + (3 + 32768) \<le> SENDBUF_SIZE)
       \<and> ((Some i, Some ProcessExit, h) \<in> set (wait_set s wsevent) \<longrightarrow>
            i < num_connections s
          \<and> sendbuf_used (connections s ! i) + (3 + 4) \<le> SENDBUF_SIZE
          \<and> stdout_pipe (connections s ! i) = None
          \<and> stderr_pipe (connections s ! i) = None)"
  using assms
  by (auto simp: wait_set_entry wait_handles_of_ProcessExit wait_handles_of_StdoutRead
        wait_handles_of_StderrRead sizeof_MessageHeader_def PIPE_READ_SIZE_def sizeof_int32_def)

theorem C2_wait_set_gates_witness:
  "sendbuf_used (connections running_server ! 0) \<le> SENDBUF_SIZE
   \<and> wait_set running_server 1
       = [(None, None, 1), (Some 0, Some StdoutRead, 7), (Some 0, Some StderrRead, 8)]
   \<and> sendbuf_used (connections running_server ! 0) + (3 + 32768) \<le> SENDBUF_SIZE
   \<and> sendbuf_used (connections drained_server ! 0) \<le> SENDBUF_SIZE
   \<and> wait_set drained_server 1 = [(None, None, 1), (Some 0, Some ProcessExit, 9)]
   \<and> sendbuf_used (connections drained_server ! 0) + (3 + 4) \<le> SENDBUF_SIZE
   \<and> stdout_pipe (connections drained_server ! 0) = None
   \<and> stderr_pipe (connections drained_server ! 0) = None"
proof -
  have h1: "sendbuf_used (connections running_server ! 0) \<le> SENDBUF_SIZE"
    by (simp add: running_server_def empty_server_def running_connection_def
          example_connection_def)
  have h2: "sendbuf_used (connections drained_server ! 0) \<le> SENDBUF_SIZE"
    by (simp add: drained_server_def empty_server_def drained_connection_def
          running_connection_def example_connection_def)
  have w1: "wait_set running_server 1
       = [(None, None, 1), (Some 0, Some StdoutRead, 7), (Some 0, Some StderrRead, 8)]"
    by (simp add: wait_set_def wait_handles_of_def running_server_def empty_server_def
          running_connection_def example_connection_def SENDBUF_SIZE_def
          sizeof_MessageHeader_def PIPE_READ_SIZE_def sizeof_int32_def
          pipe9x_read_event_def pipe9x_write_pending_def)
  have w2: "wait_set drained_server 1 = [(None, None, 1), (Some 0, Some ProcessExit, 9)]"
    by (simp add: wait_set_def wait_handles_of_def drained_server_def empty_server_def
          drained_connection_def running_connection_def example_connection_def
          SENDBUF_SIZE_def sizeof_MessageHeader_def PIPE_READ_SIZE_def sizeof_int32_def
          pipe9x_write_pending_def)
  from C2_wait_set_gates [OF h1, of 7 1] w1
  have "sendbuf_used (connections running_server ! 0) + (3 + 32768) \<le> SENDBUF_SIZE"
    by simp
  moreover from C2_wait_set_gates [OF h2, of 9 1] w2
  have "sendbuf_used (connections drained_server ! 0) + (3 + 4) \<le> SENDBUF_SIZE
      \<and> stdout_pipe (connections drained_server ! 0) = None
      \<and> stderr_pipe (connections drained_server ! 0) = None"
    by simp
  ultimately show ?thesis
    using h1 h2 w1 w2 by simp
qed

text \<open>
  C10. With at most \<open>MAX_CONNECTIONS\<close> connections the wait set has at most
  \<open>1 + MAX_CONNECTIONS * 3\<close> handles, the size of the array \<open>wait_handles\<close>: each
  connection adds at most 3, and none adds its process handle together with the read
  event of its stdout or stderr pipe.
\<close>

theorem C10_wait_set_bound:
  assumes "num_connections s \<le> MAX_CONNECTIONS"
  shows "num_wait_handles s wsevent \<le> 1 + MAX_CONNECTIONS * 3
       \<and> (\<forall>i < num_connections s.
            length (wait_handles_of (connections s ! i)) \<le> 3
          \<and> (ProcessExit \<in> fst ` set (wait_handles_of (connections s ! i)) \<longrightarrow>
               StdoutRead \<notin> fst ` set (wait_handles_of (connections s ! i))
             \<and> StderrRead \<notin> fst ` set (wait_handles_of (connections s ! i))))"
proof -
  have "length (concat (map (\<lambda>i. map (\<lambda>(k, h). (Some i, Some k, h))
            (wait_handles_of (connections s ! i))) [0..<num_connections s]))
          \<le> length [0..<num_connections s] * 3"
    by (rule length_concat_le) (simp add: wait_handles_of_length)
  then have "num_wait_handles s wsevent \<le> 1 + num_connections s * 3"
    by (simp add: num_wait_handles_def wait_handles_def wait_set_def)
  with assms have "num_wait_handles s wsevent \<le> 1 + MAX_CONNECTIONS * 3"
    by (meson add_le_mono le_refl le_trans mult_le_mono1)
  moreover have "ProcessExit \<in> fst ` set (wait_handles_of c) \<longrightarrow>
               StdoutRead \<notin> fst ` set (wait_handles_of c)
             \<and> StderrRead \<notin> fst ` set (wait_handles_of c)" for c
    by (auto simp: wait_handles_of_ProcessExit wait_handles_of_StdoutRead
          wait_handles_of_StderrRead)
  ultimately show ?thesis
    by (simp add: wait_handles_of_length)
qed

theorem C10_wait_set_bound_witness:
  "num_connections drained_server \<le> MAX_CONNECTIONS
   \<and> wait_handles drained_server 1 = [1, 9]
   \<and> num_wait_handles drained_server 1 \<le> 1 + MAX_CONNECTIONS * 3
   \<and> 0 < num_connections drained_server
   \<and> ProcessExit \<in> fst ` set (wait_handles_of (connections drained_server ! 0))
   \<and> StdoutRead \<notin> fst ` set (wait_handles_of (connections drained_server ! 0))
   \<and> StderrRead \<notin> fst ` set (wait_handles_of (connections drained_server ! 0))"
proof -
  have h: "num_connections drained_server \<le> MAX_CONNECTIONS"
    and n: "0 < num_connections drained_server"
    by (simp_all add: drained_server_def empty_server_def MAX_CONNECTIONS_def)
  have w: "wait_handles_of (connections drained_server ! 0) = [(ProcessExit, 9)]"
    by (simp add: wait_handles_of_def drained_server_def empty_server_def
          drained_connection_def running_connection_def example_connection_def
          SENDBUF_SIZE_def sizeof_MessageHeader_def PIPE_READ_SIZE_def sizeof_int32_def
          pipe9x_write_pending_def)
  have a: "wait_handles drained_server 1 = [1, 9]"
    using w by (simp add: wait_handles_def wait_set_def drained_server_def empty_server_def)
  from C10_wait_set_bound [OF h, of 1] n w
  have "num_wait_handles drained_server 1 \<le> 1 + MAX_CONNECTIONS * 3
      \<and> StdoutRead \<notin> fst ` set (wait_handles_of (connections drained_server ! 0))
      \<and> StderrRead \<notin> fst ` set (wait_handles_of (connections drained_server ! 0))"
    by force
  with h n w a show ?thesis
    by simp
qed

section \<open>The message E\<close>

lemma handle_E_pipe_failure:
  assumes "create_stdin env = (e1, r1, w1)"
    and "create_stdout env = (e2, r2, w2)"
    and "create_stderr env = (e3, r3, w3)"
    and "e1 \<noteq> ERROR_SUCCESS \<or> e2 \<noteq> ERROR_SUCCESS \<or> e3 \<noteq> ERROR_SUCCESS"
  shows "handle_E env c =
           Close c
             (if e1 \<noteq> ERROR_SUCCESS then []
              else if e2 \<noteq> ERROR_SUCCESS
              then [Pipe9xWriteClose (Some \<lparr>write_event = w1, write_pending = False\<rparr>),
                    Pipe9xReadClose (Some \<lparr>read_event = r1\<rparr>)]
              else [Pipe9xWriteClose (Some \<lparr>write_event = w2, write_pending = False\<rparr>),
                    Pipe9xReadClose (Some \<lparr>read_event = r2\<rparr>),
                    Pipe9xWriteClose (Some \<lparr>write_event = w1, write_pending = False\<rparr>),
                    Pipe9xReadClose (Some \<lparr>read_event = r1\<rparr>)])"
  using assms by (auto simp: handle_E_def Let_def)

lemma connection_close_entry:
  assumes "connection_idx < length (connections s)"
  shows "\<exists>s' es. connection_close s connection_idx = (s', es)
         \<and> num_connections s' = num_connections s - 1
         \<and> Closesocket (sock (connections s ! connection_idx)) \<in> set es
         \<and> spawns es = 0
         \<and> process (connections s' ! connection_idx) = None
         \<and> stdin_pipe (connections s' ! connection_idx) = None
         \<and> stdout_pipe (connections s' ! connection_idx) = None
         \<and> stderr_pipe (connections s' ! connection_idx) = None"
  using assms
  by (auto simp: connection_close_def Let_def memmove_connection_def split: option.splits)

lemma spawns_append: "spawns (es @ es') = spawns es + spawns es'"
  by (induction es rule: spawns.induct) auto

text \<open>
  C8. When the message \<^verbatim>\<open>E\<close> is at the head of the receive buffer and one of the three
  \<^verbatim>\<open>pipe9x_create\<close> fails, the loop of \<open>connection_read\<close> closes the connection,
  which is as it was before the message (no handle is stored in it). Its effects are
  exactly the closing of both ends of every pipe made before the failing call: nothing
  when the first fails, the stdin pipe when the second fails, the stdout and stdin pipes
  when the third fails. \<^verbatim>\<open>CreateProcess\<close> is not called, and once
  \<open>connection_close\<close> has run there is one connection less, the socket is closed and the
  entry holds no process and no pipe.
\<close>

theorem C8_pipe_creation_failure:
  assumes "next_message (recvbuf c) (recvbuf_used c) = Some (CMD_E, payload, k)"
    and "create_stdin (envs n) = (e1, r1, w1)"
    and "create_stdout (envs n) = (e2, r2, w2)"
    and "create_stderr (envs n) = (e3, r3, w3)"
    and "e1 \<noteq> ERROR_SUCCESS \<or> e2 \<noteq> ERROR_SUCCESS \<or> e3 \<noteq> ERROR_SUCCESS"
  shows "\<exists>closes.
           closes =
             (if e1 \<noteq> ERROR_SUCCESS then []
              else if e2 \<noteq> ERROR_SUCCESS
              then [Pipe9xWriteClose (Some \<lparr>write_event = w1, write_pending = False\<rparr>),
                    Pipe9xReadClose (Some \<lparr>read_event = r1\<rparr>)]
              else [Pipe9xWriteClose (Some \<lparr>write_event = w2, write_pending = False\<rparr>),
                    Pipe9xReadClose (Some \<lparr>read_event = r2\<rparr>),
                    Pipe9xWriteClose (Some \<lparr>write_event = w1, write_pending = False\<rparr>),
                    Pipe9xReadClose (Some \<lparr>read_event = r1\<rparr>)])
         \<and> process_messages envs n c es = Closed c (es @ closes)
         \<and> (\<forall>s connection_idx. connection_idx < length (connections s) \<longrightarrow>
               (\<exists>s' es'. commit s connection_idx (process_messages envs n c es)
                            = Some (s', es @ closes @ es')
                  \<and> num_connections s' = num_connections s - 1
                  \<and> Closesocket (sock c) \<in> set es'
                  \<and> spawns (closes @ es') = 0
                  \<and> process (connections s' ! connection_idx) = None
                  \<and> stdin_pipe (connections s' ! connection_idx) = None
                  \<and> stdout_pipe (connections s' ! connection_idx) = None
                  \<and> stderr_pipe (connections s' ! connection_idx) = None))"
proof -
  define closes where "closes =
             (if e1 \<noteq> ERROR_SUCCESS then []
              else if e2 \<noteq> ERROR_SUCCESS
              then [Pipe9xWriteClose (Some \<lparr>write_event = w1, write_pending = False\<rparr>),
                    Pipe9xReadClose (Some \<lparr>read_event = r1\<rparr>)]
              else [Pipe9xWriteClose (Some \<lparr>write_event = w2, write_pending = False\<rparr>),
                    Pipe9xReadClose (Some \<lparr>read_event = r2\<rparr>),
                    Pipe9xWriteClose (Some \<lparr>write_event = w1, write_pending = False\<rparr>),
                    Pipe9xReadClose (Some \<lparr>read_event = r1\<rparr>)])"
  have "handle_message (envs n) CMD_E payload c = Close c closes"
    using handle_E_pipe_failure [OF assms(2-5)] by (simp add: handle_message_def closes_def)
  with assms(1) have closed: "process_messages envs n c es = Closed c (es @ closes)"
    by (simp add: process_messages.simps)
  have no_spawn: "spawns closes = 0"
    by (simp add: closes_def)
  have "\<exists>s' es'. commit s connection_idx (process_messages envs n c es)
                            = Some (s', es @ closes @ es')
                  \<and> num_connections s' = num_connections s - 1
                  \<and> Closesocket (sock c) \<in> set es'
                  \<and> spawns (closes @ es') = 0
                  \<and> process (connections s' ! connection_idx) = None
                  \<and> stdin_pipe (connections s' ! connection_idx) = None
                  \<and> stdout_pipe (connections s' ! connection_idx) = None
                  \<and> stderr_pipe (connections s' ! connection_idx) = None"
    if idx: "connection_idx < length (connections s)" for s connection_idx
  proof -
    let ?s = "s\<lparr>connections := (connections s)[connection_idx := c]\<rparr>"
    from idx have "connection_idx < length (connections ?s)"
      by simp
    from connection_close_entry [OF this] idx obtain s' es'
      where "connection_close ?s connection_idx = (s', es')"
        and "num_connections s' = num_connections s - 1"
        and "Closesocket (sock c) \<in> set es'" and "spawns es' = 0"
        and "process (connections s' ! connection_idx) = None"
        and "stdin_pipe (connections s' ! connection_idx) = None"
        and "stdout_pipe (connections s' ! connection_idx) = None"
        and "stderr_pipe (connections s' ! connection_idx) = None"
      by auto
    then show ?thesis
      using closed no_spawn by (simp add: spawns_append)
  qed
  with closed show ?thesis
    unfolding closes_def by blast
qed

text \<open>
  C9. When the message \<^verbatim>\<open>E\<close> is at the head of the receive buffer, the three pipes
  are created and \<open>application_path\<close> is \<^verbatim>\<open>NULL\<close> (no message \<^verbatim>\<open>A\<close> has set it),
  \<^verbatim>\<open>strchr\<close> is called on the null pointer: the server stops there, whatever the
  other answers are, and the connection is not closed as after an error.
\<close>

theorem C9_execute_without_application_path:
  assumes "next_message (recvbuf c) (recvbuf_used c) = Some (CMD_E, payload, k)"
    and "application_path c = None"
    and "fst (create_stdin (envs n)) = ERROR_SUCCESS"
    and "fst (create_stdout (envs n)) = ERROR_SUCCESS"
    and "fst (create_stderr (envs n)) = ERROR_SUCCESS"
  shows "process_messages envs n c es = Crashed NullPointer es"
proof -
  from assms(2-5) have "handle_message (envs n) CMD_E payload c = Crash NullPointer []"
    by (cases "create_stdin (envs n)"; cases "create_stdout (envs n)";
        cases "create_stderr (envs n)")
       (simp add: handle_message_def handle_E_def spawn_child_def Let_def)
  with assms(1) show ?thesis
    by (simp add: process_messages.simps)
qed

theorem C9_execute_without_application_path_witness:
  "next_message (recvbuf (received_E example_connection))
       (recvbuf_used (received_E example_connection)) = Some (CMD_E, [], 3)
   \<and> application_path (received_E example_connection) = None
   \<and> fst (create_stdin example_env) = ERROR_SUCCESS
   \<and> fst (create_stdout example_env) = ERROR_SUCCESS
   \<and> fst (create_stderr example_env) = ERROR_SUCCESS
   \<and> connection_read example_connection (Received [69, 0, 0]) (\<lambda>n. example_env)
       = Crashed NullPointer []"
proof -
  have h1: "next_message (recvbuf (received_E example_connection))
       (recvbuf_used (received_E example_connection)) = Some (CMD_E, [], 3)"
    by (simp add: received_E_def next_message_def sizeof_MessageHeader_def
          header_payload_length_def header_command_def)
  have h2: "application_path (received_E example_connection) = None"
    by (simp add: received_E_def example_connection_def)
  have h3: "fst (create_stdin example_env) = ERROR_SUCCESS"
    and h4: "fst (create_stdout example_env) = ERROR_SUCCESS"
    and h5: "fst (create_stderr example_env) = ERROR_SUCCESS"
    by (simp_all add: example_env_def)
  have "connection_read example_connection (Received [69, 0, 0]) (\<lambda>n. example_env)
      = process_messages (\<lambda>n. example_env) 0 (received_E example_connection) []"
    by (simp add: connection_read_def received_E_def example_connection_def memcpy_def
          RECVBUF_SIZE_def numeral_3_eq_3)
  with C9_execute_without_application_path [of "received_E example_connection" "[]" 3
      "\<lambda>n. example_env" 0 "[]", OF h1 h2 h3 h4 h5] h1 h2 h3 h4 h5
  show ?thesis
    by simp
qed

theorem C8_pipe_creation_failure_witness:
  "next_message (recvbuf (received_E after_A)) (recvbuf_used (received_E after_A))
       = Some (CMD_E, [], 3)
   \<and> create_stdin stdout_fails = (ERROR_SUCCESS, 5, 6)
   \<and> create_stdout stdout_fails = (8, 7, 11)
   \<and> create_stderr stdout_fails = (ERROR_SUCCESS, 8, 12)
   \<and> (8 :: DWORD) \<noteq> ERROR_SUCCESS
   \<and> connection_read after_A (Received [69, 0, 0]) (\<lambda>n. stdout_fails)
       = Closed (received_E after_A)
           [Pipe9xWriteClose (Some \<lparr>write_event = 6, write_pending = False\<rparr>),
            Pipe9xReadClose (Some \<lparr>read_event = 5\<rparr>)]"
proof -
  have h1: "next_message (recvbuf (received_E after_A)) (recvbuf_used (received_E after_A))
       = Some (CMD_E, [], 3)"
    by (simp add: received_E_def next_message_def sizeof_MessageHeader_def
          header_payload_length_def header_command_def)
  have h2: "create_stdin ((\<lambda>n. stdout_fails) (0 :: nat)) = (ERROR_SUCCESS, 5, 6)"
    and h3: "create_stdout ((\<lambda>n. stdout_fails) (0 :: nat)) = (8, 7, 11)"
    and h4: "create_stderr ((\<lambda>n. stdout_fails) (0 :: nat)) = (ERROR_SUCCESS, 8, 12)"
    by (simp_all add: stdout_fails_def example_env_def)
  have h5: "ERROR_SUCCESS \<noteq> ERROR_SUCCESS \<or> (8 :: DWORD) \<noteq> ERROR_SUCCESS
        \<or> ERROR_SUCCESS \<noteq> ERROR_SUCCESS"
    by (simp add: ERROR_SUCCESS_def)
  have "connection_read after_A (Received [69, 0, 0]) (\<lambda>n. stdout_fails)
      = process_messages (\<lambda>n. stdout_fails) 0 (received_E after_A) []"
    by (simp add: connection_read_def received_E_def after_A_def example_connection_def
          memcpy_def RECVBUF_SIZE_def numeral_3_eq_3)
  with C8_pipe_creation_failure [OF h1 h2 h3 h4 h5, where es = "[]"] h1 h2 h3 h4 h5
  show ?thesis
    by (simp add: ERROR_SUCCESS_def)
qed



section \<open>Evaluation of whole runs\<close>

lemmas run_defs =
  session_run.simps session_step.simps socket_ready_def connection_flush_def
  connection_read_def connection_write_def process_messages.simps next_message_def
  handle_message_def handle_A_def handle_C_def handle_W_def handle_E_def handle_I_def
  spawn_child_def store_string_def strchr_found_def drain_recvbuf_def memcpy_def memmove_def
  header_command_def header_payload_length_def MessageHeader_bytes_def
  sizeof_MessageHeader_def sizeof_int32_def RECVBUF_SIZE_def SENDBUF_SIZE_def
  PIPE_READ_SIZE_def ERROR_SUCCESS_def ERROR_IO_PENDING_def ERROR_BROKEN_PIPE_def
  pipe9x_write_pending_def pipe9x_write_event_def pipe9x_read_event_def
  wait_handles_of_def woke_connection_def pipe_read_def HANDLE_EOF_def process_exit_def
  int32_bytes_def Let_def

section \<open>The message I while a write is in flight\<close>

lemma stalled_message_stays:
  assumes "next_message (recvbuf c) (recvbuf_used c) = Some (CMD_I, payload, k)"
    and "payload \<noteq> []"
    and "stdin_pipe c = Some pwh" and "pipe9x_write_pending pwh"
  shows "process_messages envs n c es = Open c es"
  using assms by (simp add: process_messages.simps handle_message_def handle_I_def)

text \<open>
  C1. The run \<open>two_writes\<close> of a new connection: the first message \<^verbatim>\<open>I\<close> starts a
  write to the child and the second one is left in the receive buffer. When the write
  has completed, \<^verbatim>\<open>pipe9x_write_result\<close> is all that is called: at the end of the run
  no write is in flight, the message \<^verbatim>\<open>I("x")\<close> is still the head of the receive
  buffer, and the only write ever started is that of \<^verbatim>\<open>"ab"\<close>.
\<close>

theorem C1_stalled_message_not_retried:
  "\<exists>c. session_run example_connection two_writes = Open c
          [CreateProcess [104, 105] None None,
           Pipe9xReadClose (Some \<lparr>read_event = 5\<rparr>),
           Pipe9xWriteClose (Some \<lparr>write_event = 11, write_pending = False\<rparr>),
           Pipe9xWriteClose (Some \<lparr>write_event = 12, write_pending = False\<rparr>),
           CloseHandle (Some 13),
           Pipe9xReadInitiate (Some \<lparr>read_event = 7\<rparr>),
           Pipe9xReadInitiate (Some \<lparr>read_event = 8\<rparr>),
           Pipe9xWriteInitiate \<lparr>write_event = 6, write_pending = False\<rparr> [97, 98]]
        \<and> recv_pending c = [73, 1, 0, 120]
        \<and> stdin_pipe c = Some \<lparr>write_event = 6, write_pending = False\<rparr>"
  by (simp add: two_writes_def run_defs example_connection_def example_env_def
        example_wake_def recv_pending_def)

section \<open>Closing a connection that is not the last\<close>

text \<open>
  C4. \<open>connection_close\<close> on the first of two connections: one connection is left in
  the table, but the entry at index 0 is not the connection that was at index 1. One
  byte has been moved: the entry is the closed connection with the lowest byte of the
  other \<open>id\<close>.
\<close>

theorem C4_connection_close_moves_one_byte:
  "num_connections two_connections = 2
   \<and> connections two_connections ! 1 = after_A\<lparr>conn_id := 256, sock := 101\<rparr>
   \<and> (\<exists>s'. connection_close two_connections 0 = (s', [Closesocket 100])
         \<and> num_connections s' = 1
         \<and> connections s' ! 0 = example_connection\<lparr>conn_id := 0, sock := INVALID_SOCKET\<rparr>
         \<and> connections s' ! 0 \<noteq> connections two_connections ! 1)"
  by (simp add: two_connections_def empty_server_def connection_close_def Let_def
        memmove_connection_def copy_int_bytes_def example_connection_def after_A_def
        INVALID_SOCKET_def)

section \<open>The order of the messages to the client\<close>

lemma queued_commands_append:
  "queued_commands (es @ es') = queued_commands es @ queued_commands es'"
  by (induction es rule: queued_commands.induct) auto

lemma effects_of_after: "effects_of (after es r) = es @ effects_of r"
  by (cases r) auto

lemma connection_flush_shape:
  "\<exists>c1. (connection_flush c sent = Open c1 [] \<or> connection_flush c sent = Closed c1 [])
      \<and> process c1 = process c \<and> stdout_pipe c1 = stdout_pipe c
      \<and> stderr_pipe c1 = stderr_pipe c \<and> stdin_pipe c1 = stdin_pipe c"
  by (cases sent) (auto simp: connection_flush_def Let_def)

lemma connection_write_shape:
  "connection_write c cmd payload sent = Crashed AssertionFailed []
   \<or> connection_write c cmd payload sent = Closed c []
   \<or> (\<exists>c1. (connection_write c cmd payload sent = Open c1 [Queued cmd payload]
            \<or> connection_write c cmd payload sent = Closed c1 [Queued cmd payload])
         \<and> process c1 = process c \<and> stdout_pipe c1 = stdout_pipe c
         \<and> stderr_pipe c1 = stderr_pipe c \<and> stdin_pipe c1 = stdin_pipe c)"
proof -
  let ?c = "c\<lparr>sendbuf := memcpy (sendbuf c) (sendbuf_used c)
                                (MessageHeader_bytes cmd (length payload) @ payload),
                   sendbuf_used := sendbuf_used c + sizeof_MessageHeader + length payload\<rparr>"
  from connection_flush_shape [of ?c sent] show ?thesis
    by (auto simp: connection_write_def)
qed

lemma handle_message_Consumed:
  "handle_message env cmd payload c = Consumed c1 es1 \<Longrightarrow>
     queued_commands es1 = []
   \<and> (spawns es1 = 0 \<longrightarrow>
        process c1 = process c \<and> stdout_pipe c1 = stdout_pipe c \<and> stderr_pipe c1 = stderr_pipe c)"
  by (auto simp: handle_message_def handle_A_def handle_C_def handle_W_def handle_E_def
        handle_I_def spawn_child_def store_string_def Let_def
      split: if_splits prod.splits option.splits)

lemma handle_message_Close:
  "handle_message env cmd payload c = Close c1 es1 \<Longrightarrow> queued_commands es1 = []"
  by (auto simp: handle_message_def handle_A_def handle_C_def handle_W_def handle_E_def
        handle_I_def spawn_child_def store_string_def Let_def
      split: if_splits prod.splits option.splits)

lemma handle_message_Crash:
  "handle_message env cmd payload c = Crash f es1 \<Longrightarrow> queued_commands es1 = []"
  by (auto simp: handle_message_def handle_A_def handle_C_def handle_W_def handle_E_def
        handle_I_def spawn_child_def store_string_def Let_def
      split: if_splits prod.splits option.splits)

lemma drain_recvbuf_fields [simp]:
  "process (drain_recvbuf k c) = process c"
  "stdout_pipe (drain_recvbuf k c) = stdout_pipe c"
  "stderr_pipe (drain_recvbuf k c) = stderr_pipe c"
  "stdin_pipe (drain_recvbuf k c) = stdin_pipe c"
  by (simp_all add: drain_recvbuf_def)

lemma process_messages_queued:
  "queued_commands (effects_of (process_messages envs n c es)) = queued_commands es"
proof (induction envs n c es rule: process_messages.induct)
  case (1 envs n c es)
  show ?case
  proof (cases "next_message (recvbuf c) (recvbuf_used c)")
    case None
    then show ?thesis by (simp add: process_messages.simps)
  next
    case (Some m)
    then obtain cmd payload k where m: "next_message (recvbuf c) (recvbuf_used c) = Some (cmd, payload, k)"
      by (cases m) auto
    show ?thesis
    proof (cases "handle_message (envs n) cmd payload c")
      case (Consumed c1 es1)
      with m 1 [of "(cmd, payload, k)" cmd "(payload, k)" payload k c1 es1]
      show ?thesis
        using handle_message_Consumed [OF Consumed]
        by (simp add: process_messages.simps [of envs n c] queued_commands_append)
    next
      case Stall
      with m show ?thesis by (simp add: process_messages.simps [of envs n c])
    next
      case (Close c1 es1)
      with m handle_message_Close [OF Close] show ?thesis
        by (simp add: process_messages.simps [of envs n c] queued_commands_append)
    next
      case (Crash f es1)
      with m handle_message_Crash [OF Crash] show ?thesis
        by (simp add: process_messages.simps [of envs n c] queued_commands_append)
    qed
  qed
qed


lemma process_messages_spawns:
  "spawns es \<le> spawns (effects_of (process_messages envs n c es))
   \<and> (\<forall>c2 es2. process_messages envs n c es = Open c2 es2 \<and> spawns es2 = spawns es \<longrightarrow>
         process c2 = process c \<and> stdout_pipe c2 = stdout_pipe c \<and> stderr_pipe c2 = stderr_pipe c)"
proof (induction envs n c es rule: process_messages.induct)
  case (1 envs n c es)
  show ?case
  proof (cases "next_message (recvbuf c) (recvbuf_used c)")
    case None
    then show ?thesis by (simp add: process_messages.simps)
  next
    case (Some m)
    then obtain cmd payload k where m: "next_message (recvbuf c) (recvbuf_used c) = Some (cmd, payload, k)"
      by (cases m) auto
    show ?thesis
    proof (cases "handle_message (envs n) cmd payload c")
      case (Consumed c1 es1)
      let ?r = "process_messages envs (Suc n) (drain_recvbuf k c1) (es @ es1)"
      from m Consumed have r: "process_messages envs n c es = ?r"
        by (simp add: process_messages.simps [of envs n c])
      from m Consumed 1 [of "(cmd, payload, k)" cmd "(payload, k)" payload k c1 es1]
      have ih: "spawns (es @ es1) \<le> spawns (effects_of ?r)"
        and ih2: "\<And>c2 es2. ?r = Open c2 es2 \<Longrightarrow> spawns es2 = spawns (es @ es1) \<Longrightarrow>
              process c2 = process c1 \<and> stdout_pipe c2 = stdout_pipe c1
              \<and> stderr_pipe c2 = stderr_pipe c1"
        by auto
      have "process c2 = process c \<and> stdout_pipe c2 = stdout_pipe c \<and> stderr_pipe c2 = stderr_pipe c"
        if open2: "?r = Open c2 es2" and same: "spawns es2 = spawns es" for c2 es2
      proof -
        from ih open2 same have "spawns es1 = 0"
          by (simp add: spawns_append)
        with handle_message_Consumed [OF Consumed] ih2 [OF open2] same show ?thesis
          by (simp add: spawns_append)
      qed
      with ih r show ?thesis
        by (simp add: spawns_append)
    next
      case Stall
      with m show ?thesis by (simp add: process_messages.simps [of envs n c])
    next
      case (Close c1 es1)
      with m show ?thesis
        by (simp add: process_messages.simps [of envs n c] spawns_append)
    next
      case (Crash f es1)
      with m show ?thesis
        by (simp add: process_messages.simps [of envs n c] spawns_append)
    qed
  qed
qed

lemma connection_read_queued:
  "queued_commands (effects_of (connection_read c read_bytes envs)) = []"
  by (cases read_bytes) (auto simp: connection_read_def process_messages_queued)

lemma connection_read_spawns:
  "connection_read c read_bytes envs = Open c2 es2 \<Longrightarrow> spawns es2 = 0 \<Longrightarrow>
     process c2 = process c \<and> stdout_pipe c2 = stdout_pipe c \<and> stderr_pipe c2 = stderr_pipe c"
  using process_messages_spawns [of "[]" envs 0
      "c\<lparr>recvbuf := memcpy (recvbuf c) (recvbuf_used c) data,
         recvbuf_used := recvbuf_used c + length data\<rparr>" for data]
  by (cases read_bytes) (auto simp: connection_read_def split: if_splits)

lemma socket_ready_queued:
  "queued_commands (effects_of (socket_ready c sent read_bytes envs)) = []"
  using connection_flush_shape [of c sent]
  by (auto simp: socket_ready_def effects_of_after connection_read_queued)

lemma socket_ready_spawns:
  assumes "socket_ready c sent read_bytes envs = Open c2 es2" and "spawns es2 = 0"
  shows "process c2 = process c \<and> stdout_pipe c2 = stdout_pipe c \<and> stderr_pipe c2 = stderr_pipe c"
proof -
  from connection_flush_shape [of c sent] assms(1) obtain c1
    where flush: "connection_flush c sent = Open c1 []"
      and same: "process c1 = process c" "stdout_pipe c1 = stdout_pipe c"
        "stderr_pipe c1 = stderr_pipe c"
    by (auto simp: socket_ready_def)
  with assms(1) have "after [] (connection_read c1 read_bytes envs) = Open c2 es2"
    by (simp add: socket_ready_def)
  then have "connection_read c1 read_bytes envs = Open c2 es2"
    by (cases "connection_read c1 read_bytes envs") auto
  from connection_read_spawns [OF this assms(2)] same show ?thesis
    by simp
qed


lemma connection_write_effects:
  "set (queued_commands (effects_of (connection_write c cmd payload sent))) \<subseteq> {cmd}
   \<and> length (queued_commands (effects_of (connection_write c cmd payload sent))) \<le> 1
   \<and> spawns (effects_of (connection_write c cmd payload sent)) = 0"
  using connection_write_shape [of c cmd payload sent] by auto

lemma HANDLE_EOF_effects:
  "set (queued_commands (effects_of (HANDLE_EOF c pipe cmd sent))) \<subseteq> {cmd}
   \<and> spawns (effects_of (HANDLE_EOF c pipe cmd sent)) = 0"
  using connection_write_effects [of "pipe_handle_NULL pipe c" cmd "[]" sent]
  by (simp add: HANDLE_EOF_def effects_of_after)

lemma pipe_read_effects:
  "set (queued_commands (effects_of (pipe_read c pipe cmd env))) \<subseteq> {cmd}
   \<and> spawns (effects_of (pipe_read c pipe cmd env)) = 0"
proof -
  obtain error data where rr: "read_result env = (error, data)"
    by (cases "read_result env")
  show ?thesis
  proof (cases "error = ERROR_SUCCESS \<and> data \<noteq> []")
    case True
    show ?thesis
    proof (cases "connection_write c cmd data (send_first env)")
      case (Open c1 es1)
      with connection_write_effects [of c cmd data "send_first env"]
        HANDLE_EOF_effects [of c1 pipe cmd "send_second env"] rr True
      show ?thesis
        by (auto simp: pipe_read_def effects_of_after queued_commands_append spawns_append)
    next
      case (Closed c1 es1)
      with connection_write_effects [of c cmd data "send_first env"] rr True
      show ?thesis
        by (auto simp: pipe_read_def)
    next
      case (Crashed f es1)
      with connection_write_effects [of c cmd data "send_first env"] rr True
      show ?thesis
        by (auto simp: pipe_read_def)
    qed
  next
    case False
    with rr HANDLE_EOF_effects [of c pipe cmd "send_first env"] show ?thesis
      by (auto simp: pipe_read_def effects_of_after queued_commands_append spawns_append)
  qed
qed

lemma process_exit_effects:
  "(queued_commands (effects_of (process_exit c code sent)) = []
    \<or> queued_commands (effects_of (process_exit c code sent)) = [CMD_X])
   \<and> spawns (effects_of (process_exit c code sent)) = 0
   \<and> (\<forall>c1 es1. process_exit c code sent = Open c1 es1 \<longrightarrow>
         process c1 = None \<and> stdout_pipe c1 = stdout_pipe c \<and> stderr_pipe c1 = stderr_pipe c)"
  using connection_write_shape [of "c\<lparr>process := None, state := CS_CLOSING\<rparr>" CMD_X
      "int32_bytes code" sent]
  by (auto simp: process_exit_def effects_of_after)


text \<open>The process handle is served only when both output pipes are gone.\<close>

lemma process_exit_dispatched:
  assumes "h \<in> snd ` set (wait_handles_of c)"
    and "\<not> (stdout_pipe c \<noteq> None \<and> h = pipe9x_read_event (the (stdout_pipe c)))"
    and "\<not> (stderr_pipe c \<noteq> None \<and> h = pipe9x_read_event (the (stderr_pipe c)))"
    and "\<not> (stdin_pipe c \<noteq> None \<and> h = pipe9x_write_event (the (stdin_pipe c)))"
  shows "stdout_pipe c = None \<and> stderr_pipe c = None"
proof -
  from assms(1) obtain k where "(k, h) \<in> set (wait_handles_of c)"
    by auto
  with assms(2-4) show ?thesis
    by (cases k)
       (auto simp: wait_handles_of_StdoutRead wait_handles_of_StderrRead
          wait_handles_of_ProcessExit wait_handles_of_StdinWrite)
qed

lemma woken_step:
  "spawns (effects_of (session_step c (Woken h env))) = 0
   \<and> (CMD_X \<notin> set (queued_commands (effects_of (session_step c (Woken h env))))
      \<or> queued_commands (effects_of (session_step c (Woken h env))) = [CMD_X]
        \<and> (\<forall>c1 es1. session_step c (Woken h env) = Open c1 es1 \<longrightarrow> idle c1))"
proof (cases "h \<in> snd ` set (wait_handles_of c)")
  case False
  then show ?thesis by simp
next
  case True
  consider (out) "stdout_pipe c \<noteq> None \<and> h = pipe9x_read_event (the (stdout_pipe c))"
    | (err) "\<not> (stdout_pipe c \<noteq> None \<and> h = pipe9x_read_event (the (stdout_pipe c)))"
        "stderr_pipe c \<noteq> None \<and> h = pipe9x_read_event (the (stderr_pipe c))"
    | (inp) "\<not> (stdout_pipe c \<noteq> None \<and> h = pipe9x_read_event (the (stdout_pipe c)))"
        "\<not> (stderr_pipe c \<noteq> None \<and> h = pipe9x_read_event (the (stderr_pipe c)))"
        "stdin_pipe c \<noteq> None \<and> h = pipe9x_write_event (the (stdin_pipe c))"
    | (exit) "\<not> (stdout_pipe c \<noteq> None \<and> h = pipe9x_read_event (the (stdout_pipe c)))"
        "\<not> (stderr_pipe c \<noteq> None \<and> h = pipe9x_read_event (the (stderr_pipe c)))"
        "\<not> (stdin_pipe c \<noteq> None \<and> h = pipe9x_write_event (the (stdin_pipe c)))"
        "Some h = process c"
    | (none) "\<not> (stdout_pipe c \<noteq> None \<and> h = pipe9x_read_event (the (stdout_pipe c)))"
        "\<not> (stderr_pipe c \<noteq> None \<and> h = pipe9x_read_event (the (stderr_pipe c)))"
        "\<not> (stdin_pipe c \<noteq> None \<and> h = pipe9x_write_event (the (stdin_pipe c)))"
        "Some h \<noteq> process c"
    by blast
  then show ?thesis
  proof cases
    case out
    with True have "session_step c (Woken h env) = pipe_read c StdoutPipe CMD_O env"
      by (auto simp: woke_connection_def)
    with pipe_read_effects [of c StdoutPipe CMD_O env] show ?thesis
      by auto
  next
    case err
    with True have "session_step c (Woken h env) = pipe_read c StderrPipe CMD_E env"
      by (auto simp: woke_connection_def)
    with pipe_read_effects [of c StderrPipe CMD_E env] show ?thesis
      by auto
  next
    case inp
    with True show ?thesis
      by (auto simp: woke_connection_def Let_def)
  next
    case exit
    with True have step: "session_step c (Woken h env)
        = process_exit c (exit_code env) (send_first env)"
      by (auto simp: woke_connection_def)
    from process_exit_dispatched [OF True exit(1-3)]
    have "stdout_pipe c = None \<and> stderr_pipe c = None" .
    with process_exit_effects [of c "exit_code env" "send_first env"] step show ?thesis
      by (auto simp: idle_def)
  next
    case none
    with True show ?thesis
      by (auto simp: woke_connection_def)
  qed
qed

lemma woken_idle:
  assumes "idle c"
  shows "effects_of (session_step c (Woken h env)) = []
       \<and> (\<forall>c1 es1. session_step c (Woken h env) = Open c1 es1 \<longrightarrow> idle c1)"
  using assms by (auto simp: idle_def woke_connection_def Let_def)


lemma session_run_Cons_effects:
  "effects_of (session_run c (ev # evs)) =
     (case session_step c ev of
        Open c1 es1 \<Rightarrow> es1 @ effects_of (session_run c1 evs)
      | Closed c1 es1 \<Rightarrow> es1
      | Crashed f es1 \<Rightarrow> es1)"
  by (cases "session_step c ev") (simp_all add: effects_of_after)

lemma idle_run:
  "idle c \<Longrightarrow> spawns (effects_of (session_run c evs)) = 0 \<Longrightarrow>
     queued_commands (effects_of (session_run c evs)) = []"
proof (induction evs arbitrary: c)
  case Nil
  then show ?case by simp
next
  case (Cons ev evs)
  show ?case
  proof (cases ev)
    case (SocketReady sent read_bytes envs)
    show ?thesis
    proof (cases "session_step c ev")
      case (Open c1 es1)
      with Cons.prems(2) have no: "spawns es1 = 0" "spawns (effects_of (session_run c1 evs)) = 0"
        by (simp_all add: session_run_Cons_effects effects_of_after spawns_append)
      from Open SocketReady socket_ready_spawns [of c sent read_bytes envs c1 es1] no(1)
        Cons.prems(1)
      have "idle c1"
        by (simp add: idle_def)
      from Cons.IH [OF this no(2)] socket_ready_queued [of c sent read_bytes envs] Open SocketReady
      show ?thesis
        by (simp add: session_run_Cons_effects effects_of_after queued_commands_append)
    next
      case (Closed c1 es1)
      with socket_ready_queued [of c sent read_bytes envs] SocketReady show ?thesis
        by (simp add: session_run_Cons_effects effects_of_after)
    next
      case (Crashed f es1)
      with socket_ready_queued [of c sent read_bytes envs] SocketReady show ?thesis
        by (simp add: session_run_Cons_effects effects_of_after)
    qed
  next
    case (Woken h env)
    from woken_idle [OF Cons.prems(1), of h env] Woken
    have quiet: "effects_of (session_step c ev) = []"
      and stays: "\<And>c1 es1. session_step c ev = Open c1 es1 \<Longrightarrow> idle c1"
      by auto
    show ?thesis
    proof (cases "session_step c ev")
      case (Open c1 es1)
      with quiet have es1: "es1 = []" by simp
      with Open Cons.prems(2) have "spawns (effects_of (session_run c1 evs)) = 0"
        by (simp add: session_run_Cons_effects effects_of_after)
      from Cons.IH [OF stays [OF Open] this] Open es1 show ?thesis
        by (simp add: session_run_Cons_effects effects_of_after)
    next
      case (Closed c1 es1)
      with quiet show ?thesis
        by (simp add: session_run_Cons_effects effects_of_after)
    next
      case (Crashed f es1)
      with quiet show ?thesis
        by (simp add: session_run_Cons_effects effects_of_after)
    qed
  qed
qed

lemma not_in_butlast_append:
  "x \<notin> set q1 \<Longrightarrow> x \<notin> set (butlast q2) \<Longrightarrow> x \<notin> set (butlast (q1 @ q2))"
  by (auto simp: butlast_append dest: in_set_butlastD)

lemma same_child_run:
  "spawns (effects_of (session_run c evs)) = 0 \<Longrightarrow>
     CMD_X \<notin> set (butlast (queued_commands (effects_of (session_run c evs))))"
proof (induction evs arbitrary: c)
  case Nil
  then show ?case by simp
next
  case (Cons ev evs)
  show ?case
  proof (cases ev)
    case (SocketReady sent read_bytes envs)
    with socket_ready_queued [of c sent read_bytes envs]
    have quiet: "queued_commands (effects_of (session_step c ev)) = []"
      by simp
    show ?thesis
    proof (cases "session_step c ev")
      case (Open c1 es1)
      with Cons.prems have "spawns (effects_of (session_run c1 evs)) = 0"
        by (simp add: session_run_Cons_effects effects_of_after spawns_append)
      from Cons.IH [OF this] quiet Open show ?thesis
        by (simp add: session_run_Cons_effects effects_of_after queued_commands_append)
    next
      case (Closed c1 es1)
      with quiet show ?thesis
        by (simp add: session_run_Cons_effects effects_of_after)
    next
      case (Crashed f es1)
      with quiet show ?thesis
        by (simp add: session_run_Cons_effects effects_of_after)
    qed
  next
    case (Woken h env)
    from woken_step [of c h env] Woken
    have step: "CMD_X \<notin> set (queued_commands (effects_of (session_step c ev)))
      \<or> queued_commands (effects_of (session_step c ev)) = [CMD_X]
        \<and> (\<forall>c1 es1. session_step c ev = Open c1 es1 \<longrightarrow> idle c1)"
      by simp
    show ?thesis
    proof (cases "session_step c ev")
      case (Open c1 es1)
      with Cons.prems have rest: "spawns (effects_of (session_run c1 evs)) = 0"
        by (simp add: session_run_Cons_effects effects_of_after spawns_append)
      from step show ?thesis
      proof
        assume "CMD_X \<notin> set (queued_commands (effects_of (session_step c ev)))"
        with Cons.IH [OF rest] Open show ?thesis
          by (simp add: session_run_Cons_effects effects_of_after queued_commands_append not_in_butlast_append)
      next
        assume last: "queued_commands (effects_of (session_step c ev)) = [CMD_X]
          \<and> (\<forall>c1 es1. session_step c ev = Open c1 es1 \<longrightarrow> idle c1)"
        with Open have "idle c1" by simp
        from idle_run [OF this rest] last Open show ?thesis
          by (simp add: session_run_Cons_effects effects_of_after queued_commands_append)
      qed
    next
      case (Closed c1 es1)
      with step show ?thesis
        by (auto simp: session_run_Cons_effects effects_of_after dest: in_set_butlastD)
    next
      case (Crashed f es1)
      with step show ?thesis
        by (auto simp: session_run_Cons_effects effects_of_after dest: in_set_butlastD)
    qed
  qed
qed

lemma one_child_run:
  "idle c \<Longrightarrow> spawns (effects_of (session_run c evs)) \<le> 1 \<Longrightarrow>
     CMD_X \<notin> set (butlast (queued_commands (effects_of (session_run c evs))))"
proof (induction evs arbitrary: c)
  case Nil
  then show ?case by simp
next
  case (Cons ev evs)
  show ?case
  proof (cases "session_step c ev")
    case (Open c1 es1)
    show ?thesis
    proof (cases ev)
      case (SocketReady sent read_bytes envs)
      with socket_ready_queued [of c sent read_bytes envs] Open
      have quiet: "queued_commands es1 = []"
        by simp
      show ?thesis
      proof (cases "spawns es1 = 0")
        case True
        with Open SocketReady socket_ready_spawns [of c sent read_bytes envs c1 es1] Cons.prems(1)
        have "idle c1"
          by (simp add: idle_def)
        moreover from Cons.prems(2) Open have "spawns (effects_of (session_run c1 evs)) \<le> 1"
          by (simp add: session_run_Cons_effects effects_of_after spawns_append)
        ultimately show ?thesis
          using Cons.IH quiet Open
          by (simp add: session_run_Cons_effects effects_of_after queued_commands_append)
      next
        case False
        with Cons.prems(2) Open have "spawns (effects_of (session_run c1 evs)) = 0"
          by (simp add: session_run_Cons_effects effects_of_after spawns_append)
        from same_child_run [OF this] quiet Open show ?thesis
          by (simp add: session_run_Cons_effects effects_of_after queued_commands_append)
      qed
    next
      case (Woken h env)
      from woken_idle [OF Cons.prems(1), of h env] Woken Open
      have "es1 = []" and "idle c1"
        by auto
      moreover from Cons.prems(2) Open have "spawns (effects_of (session_run c1 evs)) \<le> 1"
        by (simp add: session_run_Cons_effects effects_of_after spawns_append)
      ultimately show ?thesis
        using Cons.IH Open by (simp add: session_run_Cons_effects effects_of_after)
    qed
  next
    case (Closed c1 es1)
    have "queued_commands es1 = []"
    proof (cases ev)
      case (SocketReady sent read_bytes envs)
      with socket_ready_queued [of c sent read_bytes envs] Closed show ?thesis
        by simp
    next
      case (Woken h env)
      with woken_idle [OF Cons.prems(1), of h env] Closed show ?thesis
        by simp
    qed
    with Closed show ?thesis
      by (simp add: session_run_Cons_effects effects_of_after)
  next
    case (Crashed f es1)
    have "queued_commands es1 = []"
    proof (cases ev)
      case (SocketReady sent read_bytes envs)
      with socket_ready_queued [of c sent read_bytes envs] Crashed show ?thesis
        by simp
    next
      case (Woken h env)
      with woken_idle [OF Cons.prems(1), of h env] Crashed show ?thesis
        by simp
    qed
    with Crashed show ?thesis
      by (simp add: session_run_Cons_effects effects_of_after)
  qed
qed


text \<open>
  Where the order of the messages does hold. Take a connection without a child, as
  \<open>connection_init\<close> leaves it, and any sequence of events of the main loop in which
  \<^verbatim>\<open>CreateProcess\<close> is called at most once. Then the message \<^verbatim>\<open>X\<close> is put into the
  send buffer at most once, and whenever it is put there no message is put there after
  it. The gate of the wait set does its part: the process handle is served only when
  both output pipes are gone (\<open>process_exit_dispatched\<close>).
\<close>

lemma single_spawn_exit_message_last:
  assumes "process c = None" and "stdout_pipe c = None" and "stderr_pipe c = None"
    and "spawns (effects_of (session_run c evs)) \<le> 1"
  shows "length (filter (\<lambda>cmd. cmd = CMD_X) (queued_commands (effects_of (session_run c evs)))) \<le> 1
       \<and> (\<forall>before later. queued_commands (effects_of (session_run c evs)) = before @ CMD_X # later
             \<longrightarrow> later = [])"
proof -
  let ?q = "queued_commands (effects_of (session_run c evs))"
  from assms have last: "CMD_X \<notin> set (butlast ?q)"
    by (intro one_child_run) (simp_all add: idle_def)
  have "later = []" if "?q = before @ CMD_X # later" for before later
  proof (rule ccontr)
    assume "later \<noteq> []"
    with that have "butlast ?q = before @ CMD_X # butlast later"
      by (simp add: butlast_append)
    with last show False by simp
  qed
  moreover have "length (filter (\<lambda>cmd. cmd = CMD_X) ?q) \<le> 1"
  proof (cases "?q = []")
    case True
    then show ?thesis by simp
  next
    case False
    then have "?q = butlast ?q @ [last ?q]"
      by simp
    then have "filter (\<lambda>cmd. cmd = CMD_X) ?q
        = filter (\<lambda>cmd. cmd = CMD_X) (butlast ?q) @ filter (\<lambda>cmd. cmd = CMD_X) [last ?q]"
      by (metis filter_append)
    moreover from last have "filter (\<lambda>cmd. cmd = CMD_X) (butlast ?q) = []"
      by (auto simp: filter_empty_conv)
    ultimately show ?thesis
      by simp
  qed
  ultimately show ?thesis
    by blast
qed

lemma one_child_effects:
  "queued_commands (effects_of (session_run example_connection one_child))
     = [CMD_O, CMD_O, CMD_E, CMD_X]
   \<and> spawns (effects_of (session_run example_connection one_child)) = 1"
  by (simp add: one_child_def eof_wake_def run_defs example_connection_def example_env_def
        example_wake_def)

lemma single_spawn_exit_message_last_example:
  "process example_connection = None
   \<and> stdout_pipe example_connection = None
   \<and> stderr_pipe example_connection = None
   \<and> spawns (effects_of (session_run example_connection one_child)) \<le> 1
   \<and> queued_commands (effects_of (session_run example_connection one_child))
       = [CMD_O, CMD_O, CMD_E] @ CMD_X # []
   \<and> length (filter (\<lambda>cmd. cmd = CMD_X)
        (queued_commands (effects_of (session_run example_connection one_child)))) \<le> 1"
proof -
  have h1: "process example_connection = None"
    and h2: "stdout_pipe example_connection = None"
    and h3: "stderr_pipe example_connection = None"
    by (simp_all add: example_connection_def)
  have h4: "spawns (effects_of (session_run example_connection one_child)) \<le> 1"
    using one_child_effects by simp
  from single_spawn_exit_message_last [OF h1 h2 h3 h4] one_child_effects h1 h2 h3 h4 show ?thesis
    by simp
qed

text \<open>
  C3. The source announces \<^verbatim>\<open>X - Exit status (followed by close)\<close>, and the claim
  says that \<^verbatim>\<open>X\<close> is put into the send buffer at most once and that no \<^verbatim>\<open>O\<close> or
  \<^verbatim>\<open>E\<close> follows it. No case of the \<^verbatim>\<open>switch\<close> of \<open>connection_read\<close> looks at the
  state of the connection, so the message \<^verbatim>\<open>E\<close> is executed again while the
  connection is in \<open>CS_CLOSING\<close> with its \<^verbatim>\<open>X\<close> still waiting in the send buffer. On
  the run \<open>second_child\<close> of a new connection \<^verbatim>\<open>CreateProcess\<close> is called twice, and
  the message \<^verbatim>\<open>X\<close> of the first child is followed by the messages \<^verbatim>\<open>O\<close> and
  \<^verbatim>\<open>E\<close> of the second child and by a second \<^verbatim>\<open>X\<close>.
\<close>

theorem C3_second_execute_after_exit:
  "process example_connection = None
   \<and> stdout_pipe example_connection = None
   \<and> stderr_pipe example_connection = None
   \<and> spawns (effects_of (session_run example_connection second_child)) = 2
   \<and> queued_commands (effects_of (session_run example_connection second_child))
       = [CMD_O, CMD_O, CMD_E, CMD_X, CMD_O, CMD_O, CMD_E, CMD_X]"
  by (simp add: second_child_def one_child_def eof_wake_def run_defs example_connection_def
        example_env_def example_wake_def)


section \<open>The buffers stay within their arrays\<close>

text \<open>
  The bounds that C2, C5 and C6 assume of a connection hold after every event of the main
  loop when they held before it; \<open>connection_init\<close> sets both counters to 0, and the
  table never holds more than \<open>MAX_CONNECTIONS\<close> connections.
\<close>

lemma connection_flush_buffers_ok:
  "buffers_ok c \<Longrightarrow> connection_flush c sent = Open c1 es1 \<Longrightarrow> buffers_ok c1"
  by (cases sent)
     (auto simp: connection_flush_def buffers_ok_def memmove_def Let_def split: if_splits)

lemma connection_write_buffers_ok:
  "buffers_ok c \<Longrightarrow> connection_write c cmd payload sent = Open c1 es1 \<Longrightarrow> buffers_ok c1"
proof -
  assume ok: "buffers_ok c" and w: "connection_write c cmd payload sent = Open c1 es1"
  let ?c = "c\<lparr>sendbuf := memcpy (sendbuf c) (sendbuf_used c)
                                (MessageHeader_bytes cmd (length payload) @ payload),
                   sendbuf_used := sendbuf_used c + sizeof_MessageHeader + length payload\<rparr>"
  from w have room: "sizeof_MessageHeader + length payload \<le> SENDBUF_SIZE - sendbuf_used c"
    and fl: "after [Queued cmd payload] (connection_flush ?c sent) = Open c1 es1"
    by (auto simp: connection_write_def split: if_splits)
  from ok room have "buffers_ok ?c"
    by (auto simp: buffers_ok_def memcpy_def MessageHeader_bytes_def sizeof_MessageHeader_def)
  moreover from fl obtain es2 where "connection_flush ?c sent = Open c1 es2"
    by (cases "connection_flush ?c sent") auto
  ultimately show ?thesis
    by (rule connection_flush_buffers_ok)
qed

lemma handle_message_buffers:
  "handle_message env cmd payload c = Consumed c1 es1 \<Longrightarrow>
     recvbuf c1 = recvbuf c \<and> recvbuf_used c1 = recvbuf_used c
   \<and> sendbuf c1 = sendbuf c \<and> sendbuf_used c1 = sendbuf_used c"
  by (auto simp: handle_message_def handle_A_def handle_C_def handle_W_def handle_E_def
        handle_I_def spawn_child_def store_string_def Let_def
      split: if_splits prod.splits option.splits)

lemma process_messages_buffers_ok:
  "buffers_ok c \<Longrightarrow> process_messages envs n c es = Open c2 es2 \<Longrightarrow> buffers_ok c2"
proof (induction envs n c es rule: process_messages.induct)
  case (1 envs n c es)
  show ?case
  proof (cases "next_message (recvbuf c) (recvbuf_used c)")
    case None
    with 1(2,3) show ?thesis by (simp add: process_messages.simps)
  next
    case (Some m)
    then obtain cmd payload k where m: "next_message (recvbuf c) (recvbuf_used c) = Some (cmd, payload, k)"
      by (cases m) auto
    then have k: "k \<le> recvbuf_used c"
      by (auto simp: next_message_def Let_def split: if_splits)
    show ?thesis
    proof (cases "handle_message (envs n) cmd payload c")
      case (Consumed c1 es1)
      from handle_message_buffers [OF Consumed] 1(2) k
      have "buffers_ok (drain_recvbuf k c1)"
        by (auto simp: buffers_ok_def drain_recvbuf_def memmove_def)
      moreover from m Consumed 1(3)
      have "process_messages envs (Suc n) (drain_recvbuf k c1) (es @ es1) = Open c2 es2"
        by (simp add: process_messages.simps [of envs n c])
      ultimately show ?thesis
        using 1(1) [of "(cmd, payload, k)" cmd "(payload, k)" payload k c1 es1] m Consumed
        by simp
    next
      case Stall
      with m 1(2,3) show ?thesis by (simp add: process_messages.simps [of envs n c])
    next
      case (Close c1 es1)
      with m 1(3) show ?thesis by (simp add: process_messages.simps [of envs n c])
    next
      case (Crash f es1)
      with m 1(3) show ?thesis by (simp add: process_messages.simps [of envs n c])
    qed
  qed
qed


lemma after_Open: "after es r = Open c1 es1 \<Longrightarrow> \<exists>es2. r = Open c1 es2"
  by (cases r) auto

lemma connection_read_buffers_ok:
  assumes "buffers_ok c"
    and "\<And>data. read_bytes = Received data \<Longrightarrow> length data \<le> RECVBUF_SIZE - recvbuf_used c"
    and "connection_read c read_bytes envs = Open c1 es1"
  shows "buffers_ok c1"
proof (cases read_bytes)
  case (Received data)
  show ?thesis
  proof (cases "recvbuf_used c = RECVBUF_SIZE \<or> data = []")
    case True
    with assms(1,3) Received show ?thesis
      by (auto simp: connection_read_def split: if_splits)
  next
    case False
    let ?c = "c\<lparr>recvbuf := memcpy (recvbuf c) (recvbuf_used c) data,
                 recvbuf_used := recvbuf_used c + length data\<rparr>"
    from assms(1) assms(2) [OF Received] False have "buffers_ok ?c"
      by (auto simp: buffers_ok_def memcpy_def)
    moreover from assms(3) Received False have "process_messages envs 0 ?c [] = Open c1 es1"
      by (simp add: connection_read_def)
    ultimately show ?thesis
      by (rule process_messages_buffers_ok)
  qed
next
  case RecvWouldBlock
  with assms(1,3) show ?thesis
    by (auto simp: connection_read_def split: if_splits)
next
  case RecvError
  with assms(1,3) show ?thesis
    by (auto simp: connection_read_def split: if_splits)
qed

lemma connection_flush_recvbuf:
  "connection_flush c sent = Open c1 es1 \<Longrightarrow> recvbuf_used c1 = recvbuf_used c"
  by (cases sent) (auto simp: connection_flush_def Let_def split: if_splits)

lemma HANDLE_EOF_buffers_ok:
  "buffers_ok c \<Longrightarrow> HANDLE_EOF c pipe cmd sent = Open c1 es1 \<Longrightarrow> buffers_ok c1"
proof -
  assume ok: "buffers_ok c" and eof: "HANDLE_EOF c pipe cmd sent = Open c1 es1"
  from ok have "buffers_ok (pipe_handle_NULL pipe c)"
    by (cases pipe) (simp_all add: buffers_ok_def)
  moreover from eof obtain es2
    where "connection_write (pipe_handle_NULL pipe c) cmd [] sent = Open c1 es2"
    by (auto simp: HANDLE_EOF_def dest: after_Open)
  ultimately show ?thesis
    by (rule connection_write_buffers_ok)
qed

lemma pipe_read_buffers_ok:
  assumes "buffers_ok c" and "pipe_read c pipe cmd env = Open c1 es1"
  shows "buffers_ok c1"
proof -
  obtain error data where rr: "read_result env = (error, data)"
    by (cases "read_result env")
  show ?thesis
  proof (cases "error = ERROR_SUCCESS \<and> data \<noteq> []")
    case True
    show ?thesis
    proof (cases "connection_write c cmd data (send_first env)")
      case (Open c2 es2)
      from connection_write_buffers_ok [OF assms(1) Open] have ok2: "buffers_ok c2" .
      from assms(2) rr True Open show ?thesis
        using ok2 HANDLE_EOF_buffers_ok [OF ok2, of pipe cmd "send_second env" c1]
        by (auto simp: pipe_read_def split: if_splits dest!: after_Open)
    next
      case (Closed c2 es2)
      with assms(2) rr True show ?thesis
        by (auto simp: pipe_read_def)
    next
      case (Crashed f es2)
      with assms(2) rr True show ?thesis
        by (auto simp: pipe_read_def)
    qed
  next
    case False
    with assms rr show ?thesis
      using HANDLE_EOF_buffers_ok [OF assms(1), of pipe cmd "send_first env" c1]
      by (auto simp: pipe_read_def split: if_splits dest!: after_Open)
  qed
qed

lemma process_exit_buffers_ok:
  assumes "buffers_ok c" and "process_exit c code sent = Open c1 es1"
  shows "buffers_ok c1"
proof -
  from assms(1) have "buffers_ok (c\<lparr>process := None, state := CS_CLOSING\<rparr>)"
    by (simp add: buffers_ok_def)
  moreover from assms(2) obtain es2
    where "connection_write (c\<lparr>process := None, state := CS_CLOSING\<rparr>) CMD_X
             (int32_bytes code) sent = Open c1 es2"
    by (auto simp: process_exit_def dest: after_Open)
  ultimately show ?thesis
    by (rule connection_write_buffers_ok)
qed

lemma session_step_buffers_ok:
  assumes "buffers_ok c" and "answers_ok c ev" and "session_step c ev = Open c1 es1"
  shows "buffers_ok c1"
proof (cases ev)
  case (SocketReady sent read_bytes envs)
  with assms(3) obtain c2 es2 es3 where flush: "connection_flush c sent = Open c2 es2"
    and read: "connection_read c2 read_bytes envs = Open c1 es3"
    by (cases "connection_flush c sent") (auto simp: socket_ready_def dest: after_Open)
  from connection_flush_buffers_ok [OF assms(1) flush] have ok2: "buffers_ok c2" .
  have "length data \<le> RECVBUF_SIZE - recvbuf_used c2" if "read_bytes = Received data" for data
    using that assms(2) SocketReady connection_flush_recvbuf [OF flush] by simp
  from connection_read_buffers_ok [OF ok2 this read] show ?thesis .
next
  case (Woken h env)
  with assms(1,3) show ?thesis
    using pipe_read_buffers_ok [OF assms(1), of StdoutPipe CMD_O env c1 es1]
      pipe_read_buffers_ok [OF assms(1), of StderrPipe CMD_E env c1 es1]
      process_exit_buffers_ok [OF assms(1), of "exit_code env" "send_first env" c1 es1]
    by (auto simp: woke_connection_def Let_def buffers_ok_def split: if_splits)
qed


lemma connection_init_bounds:
  assumes "num_connections s \<le> MAX_CONNECTIONS" and "length (connections s) = MAX_CONNECTIONS"
  shows "num_connections (fst (connection_init s newsock)) \<le> MAX_CONNECTIONS
       \<and> length (connections (fst (connection_init s newsock))) = MAX_CONNECTIONS"
  using assms by (simp add: connection_init_def Let_def)

lemma connection_close_bounds:
  assumes "num_connections s \<le> MAX_CONNECTIONS" and "length (connections s) = MAX_CONNECTIONS"
  shows "num_connections (fst (connection_close s connection_idx)) \<le> MAX_CONNECTIONS
       \<and> length (connections (fst (connection_close s connection_idx))) = MAX_CONNECTIONS"
  using assms by (simp add: connection_close_def Let_def)

section \<open>A woken handle reaches the connection that waits for it\<close>

text \<open>
  In a table whose handles are all different, the loop of \<open>main\<close> over the connections
  serves a handle of the wait set at the connection that put it there, and does there
  what \<open>session_step\<close> does.
\<close>

lemma woke_connection_None:
  "(woke_connection c h env = None) = (h \<notin> set (handles_of c))"
proof -
  have "(woke_connection c h env = None) =
      (\<not> (stdout_pipe c \<noteq> None \<and> h = pipe9x_read_event (the (stdout_pipe c)))
       \<and> \<not> (stderr_pipe c \<noteq> None \<and> h = pipe9x_read_event (the (stderr_pipe c)))
       \<and> \<not> (stdin_pipe c \<noteq> None \<and> h = pipe9x_write_event (the (stdin_pipe c)))
       \<and> Some h \<noteq> process c)"
    unfolding woke_connection_def Let_def by simp
  also have "\<dots> = (h \<notin> set (handles_of c))"
    by (cases "stdout_pipe c"; cases "stderr_pipe c"; cases "stdin_pipe c"; cases "process c";
        simp add: handles_of_def; blast)
  finally show ?thesis .
qed


lemma wait_handles_of_handles_of:
  assumes "h \<in> snd ` set (wait_handles_of c)"
  shows "h \<in> set (handles_of c)"
proof -
  from assms obtain k where "(k, h) \<in> set (wait_handles_of c)"
    by auto
  then show ?thesis
  proof (cases k)
    case StdoutRead
    with \<open>(k, h) \<in> set (wait_handles_of c)\<close> show ?thesis
      by (auto simp: wait_handles_of_StdoutRead handles_of_def)
  next
    case StderrRead
    with \<open>(k, h) \<in> set (wait_handles_of c)\<close> show ?thesis
      by (auto simp: wait_handles_of_StderrRead handles_of_def)
  next
    case ProcessExit
    with \<open>(k, h) \<in> set (wait_handles_of c)\<close> show ?thesis
      by (auto simp: wait_handles_of_ProcessExit handles_of_def)
  next
    case StdinWrite
    with \<open>(k, h) \<in> set (wait_handles_of c)\<close> show ?thesis
      by (auto simp: wait_handles_of_StdinWrite handles_of_def)
  qed
qed

lemma distinct_concat_map:
  assumes "distinct (concat (map f xs))"
    and "i \<in> set xs" and "j \<in> set xs" and "i \<noteq> j" and "h \<in> set (f i)"
  shows "h \<notin> set (f j)"
  using assms
proof (induction xs)
  case Nil
  then show ?case by simp
next
  case (Cons x xs)
  from Cons.prems(1) have d: "distinct (concat (map f xs))"
    and disj: "set (f x) \<inter> (\<Union>y\<in>set xs. set (f y)) = {}"
    by simp_all
  show ?case
  proof (cases "i = x")
    case True
    with Cons.prems(2-4) have "j \<in> set xs" by auto
    with disj Cons.prems(5) True show ?thesis by blast
  next
    case False
    with Cons.prems(2) have i: "i \<in> set xs" by simp
    show ?thesis
    proof (cases "j = x")
      case True
      with disj i Cons.prems(5) show ?thesis by blast
    next
      case False
      with Cons.prems(3) have "j \<in> set xs" by simp
      from Cons.IH [OF d i this Cons.prems(4,5)] show ?thesis .
    qed
  qed
qed

lemma find_unique:
  assumes "i \<in> set xs" and "P i" and "\<And>j. j \<in> set xs \<Longrightarrow> P j \<Longrightarrow> j = i"
  shows "find P xs = Some i"
  using assms
proof (induction xs)
  case Nil
  then show ?case by simp
next
  case (Cons x xs)
  show ?case
  proof (cases "P x")
    case True
    with Cons.prems(3) [of x] show ?thesis by simp
  next
    case False
    with Cons.prems(1,2) have "i \<in> set xs" by auto
    moreover have "j = i" if "j \<in> set xs" "P j" for j
      using that Cons.prems(3) [of j] by simp
    ultimately have "find P xs = Some i"
      using Cons.prems(2) by (intro Cons.IH)
    with False show ?thesis by simp
  qed
qed

lemma main_woken_session_step:
  assumes "distinct_handles s" and "i < num_connections s"
    and "h \<in> snd ` set (wait_handles_of (connections s ! i))"
  shows "main_woken s h env = commit s i (session_step (connections s ! i) (Woken h env))"
proof -
  let ?P = "\<lambda>i. woke_connection (connections s ! i) h env \<noteq> None"
  let ?f = "\<lambda>i. handles_of (connections s ! i)"
  from assms(3) have mine: "h \<in> set (?f i)"
    by (rule wait_handles_of_handles_of)
  then have Pi: "?P i"
    by (simp only: woke_connection_None not_not)
  from assms(2) have i_in: "i \<in> set [0..<num_connections s]"
    by simp
  from assms(1) have dist: "distinct (concat (map ?f [0..<num_connections s]))"
    by (simp only: distinct_handles_def)
  have uniq: "j = i" if j_in: "j \<in> set [0..<num_connections s]" and Pj: "?P j" for j
  proof (rule ccontr)
    assume "j \<noteq> i"
    then have "i \<noteq> j" by (rule not_sym)
    from distinct_concat_map [of ?f "[0..<num_connections s]" i j h, OF dist i_in j_in this mine]
    have "h \<notin> set (handles_of (connections s ! j))" .
    then have "woke_connection (connections s ! j) h env = None"
      by (rule iffD2 [OF woke_connection_None])
    with Pj show False
      by (rule notE)
  qed
  have found: "find ?P [0..<num_connections s] = Some i"
    using i_in Pi uniq by (rule find_unique)
  have "session_step (connections s ! i) (Woken h env)
      = (case woke_connection (connections s ! i) h env of
           Some r \<Rightarrow> r | None \<Rightarrow> Open (connections s ! i) [])"
    using assms(3) by (simp only: session_step.simps if_True)
  also from Pi have "\<dots> = the (woke_connection (connections s ! i) h env)"
    by (cases "woke_connection (connections s ! i) h env") simp_all
  finally show ?thesis
    by (simp only: main_woken_def found option.case)
qed


end
